theory Spec2Isabelle
  imports Complex_Main
begin

section \<open>Failure values\<close>

text \<open>
  The library never throws: a failed \<^verbatim>\<open>assert\<close>, \<^verbatim>\<open>FATAL_ERROR\<close> and a failed
  \<^verbatim>\<open>CHECK_HIP_ERROR\<close> all end the process.  The model returns the reason as a value.
  Assertions are modelled as compiled in (no \<^verbatim>\<open>NDEBUG\<close>).  An access outside a buffer is
  undefined behaviour in C++; the model reports it as \<open>OutOfBounds\<close> instead of inventing
  a value.  So is an \<^verbatim>\<open>int\<close> computation whose result does not fit into 32 bits; the
  model reports it as \<open>IntOverflow\<close>.
\<close>

datatype error =
    AssertionFailed   \<comment> \<open>\<^verbatim>\<open>assert(...)\<close> does not hold\<close>
  | FatalError        \<comment> \<open>\<^verbatim>\<open>FATAL_ERROR(__FILE__, __LINE__)\<close>\<close>
  | HipError          \<comment> \<open>the device runtime reports a failure, \<^verbatim>\<open>exit(1)\<close>\<close>
  | OutOfBounds       \<comment> \<open>a read or write outside the buffer\<close>
  | BadReference      \<comment> \<open>an address that holds no object of the expected class\<close>
  | IntOverflow       \<comment> \<open>a signed overflow of \<^verbatim>\<open>int\<close>\<close>

section \<open>Multigrid hierarchy setters (multigrid.cpp)\<close>

text \<open>
  The fields of \<^verbatim>\<open>MultiGrid\<close> that the setters read and write.  An array pointer is an
  optional list (\<open>None\<close> is \<^verbatim>\<open>NULL\<close>).  The bookkeeping arrays come from
  \<^verbatim>\<open>new Operator*[levels_]\<close>, whose slots are not initialised: a slot is \<open>None\<close> until
  an operator pointer is stored in it.  Isabelle does not accept a name that ends in an
  underscore, so the field \<^verbatim>\<open>levels_\<close> is \<open>levels\<close> here, and so on.
\<close>

record 'op MultiGrid =
  build :: bool
  levels :: int
  scaling :: bool
  op_level :: "'op list option"
  restrict_op_level :: "'op option list option"
  prolong_op_level :: "'op option list option"

text \<open>
  \<^verbatim>\<open>for (int i=0; i<this->levels_-1; ++i) dst[i] = op[i];\<close> with \<open>k\<close> iterations left
  and both accesses checked against the arrays.
\<close>

fun copy_ops :: "nat \<Rightarrow> nat \<Rightarrow> 'op list \<Rightarrow> 'op option list \<Rightarrow> error + 'op option list" where
  "copy_ops 0 i ops dst = Inr dst"
| "copy_ops (Suc k) i ops dst =
     (if i < length ops \<and> i < length dst
      then copy_ops k (Suc i) ops (dst[i := Some (ops ! i)])
      else Inl OutOfBounds)"

definition SetRestrictOperator :: "'op MultiGrid \<Rightarrow> 'op list option \<Rightarrow> error + 'op MultiGrid" where
  "SetRestrictOperator mg op =
     (if build mg \<noteq> False then Inl AssertionFailed
      else case op of
        None \<Rightarrow> Inl AssertionFailed
      | Some ops \<Rightarrow>
          if \<not> levels mg > 0 then Inl AssertionFailed
          else (case copy_ops (nat (levels mg - 1)) 0 ops (replicate (nat (levels mg)) None) of
                  Inl e \<Rightarrow> Inl e
                | Inr arr \<Rightarrow> Inr (mg\<lparr>restrict_op_level := Some arr\<rparr>)))"

definition SetProlongOperator :: "'op MultiGrid \<Rightarrow> 'op list option \<Rightarrow> error + 'op MultiGrid" where
  "SetProlongOperator mg op =
     (if build mg \<noteq> False then Inl AssertionFailed
      else case op of
        None \<Rightarrow> Inl AssertionFailed
      | Some ops \<Rightarrow>
          if \<not> levels mg > 0 then Inl AssertionFailed
          else (case copy_ops (nat (levels mg - 1)) 0 ops (replicate (nat (levels mg)) None) of
                  Inl e \<Rightarrow> Inl e
                | Inr arr \<Rightarrow> Inr (mg\<lparr>prolong_op_level := Some arr\<rparr>)))"

definition SetOperatorHierarchy :: "'op MultiGrid \<Rightarrow> 'op list option \<Rightarrow> error + 'op MultiGrid" where
  "SetOperatorHierarchy mg op =
     (if build mg \<noteq> False then Inl AssertionFailed
      else case op of
        None \<Rightarrow> Inl AssertionFailed
      | Some ops \<Rightarrow> Inr (mg\<lparr>op_level := Some ops\<rparr>))"

text \<open>What C3 calls recording the first \<open>levels_ - 1\<close> operator pointers.\<close>

definition recorded :: "int \<Rightarrow> 'op list \<Rightarrow> 'op option list" where
  "recorded n ops = map Some (take (nat (n - 1)) ops) @ [None]"

section \<open>Vectors on the device (hip_vector.cpp)\<close>

subsection \<open>Objects\<close>

text \<open>
  A buffer pointer is an optional list: \<open>None\<close> is \<^verbatim>\<open>NULL\<close>, \<open>Some xs\<close> a buffer that
  holds the cells \<open>xs\<close>.  Buffers are owned by their vector (no two vectors share one).
  The element buffer \<^verbatim>\<open>vec_\<close> is zeroed whenever \<open>Allocate\<close> creates it, so its cells
  always hold values.  The index buffers are allocated and not initialised, so their
  cells are optional: \<open>None\<close> is a cell whose content is indeterminate.

  The field \<^verbatim>\<open>size_\<close> is \<open>size_v\<close> here (\<open>size\<close> is a constant of HOL), the other
  fields lose their final underscore, and the fields of a host vector carry the prefix
  \<open>host\<close>.  Sizes are the \<^verbatim>\<open>int\<close> of the source; no arithmetic on them can overflow in
  the functions modelled.
\<close>

record Rocalution_Backend_Descriptor =
  HIP_warp :: int
  HIP_block_size :: int
  HIP_max_threads :: int

record 'a HIPAcceleratorVector =
  size_v :: int
  index_size :: int
  vec :: "'a list option"
  index_array :: "int option list option"
  index_buffer :: "'a option list option"
  host_buffer :: "'a option list option"
  device_buffer :: "'a option list option"
  local_backend :: Rocalution_Backend_Descriptor

text \<open>
  Of a host vector, the fields that hip_vector.cpp and host_stencil_laplace2d.cpp read
  and write.
\<close>

record 'a HostVector =
  host_size :: int
  host_index_size :: int
  host_vec :: "'a list option"
  host_index_array :: "int option list option"

text \<open>
  A \<^verbatim>\<open>BaseVector\<close> reference points to an object of one of the two classes;
  \<^verbatim>\<open>dynamic_cast\<close> is the case distinction.
\<close>

datatype 'a BaseVector =
    HIP "'a HIPAcceleratorVector"
  | HOST "'a HostVector"

fun get_size :: "'a BaseVector \<Rightarrow> int" where
  "get_size (HIP v) = size_v v"
| "get_size (HOST v) = host_size v"

fun get_index_size :: "'a BaseVector \<Rightarrow> int" where
  "get_index_size (HIP v) = index_size v"
| "get_index_size (HOST v) = host_index_size v"

text \<open>
  Running one step after another, stopping at the first failure.
\<close>

definition seq :: "error + 'x \<Rightarrow> ('x \<Rightarrow> error + 'y) \<Rightarrow> error + 'y" where
  "seq m k = (case m of Inl e \<Rightarrow> Inl e | Inr x \<Rightarrow> k x)"

subsection \<open>Allocation primitives\<close>

text \<open>
  Modelled from the spec: \<^verbatim>\<open>allocate_hip\<close> and \<^verbatim>\<open>free_hip\<close> (hip_allocate_free.hpp)
  are not among the sources.  The spec's capability \<^verbatim>\<open>allocate(n)\<close> gives a new buffer
  of \<open>n\<close> cells and says nothing of their content.
\<close>

definition allocate_hip :: "int \<Rightarrow> 'c option list option" where
  "allocate_hip n = Some (replicate (nat n) None)"

text \<open>
  Modelled from the spec: \<^verbatim>\<open>allocate_host\<close> (allocate_free.hpp) is not among the
  sources; it is the host's \<^verbatim>\<open>allocate(n)\<close>.
\<close>

definition allocate_host :: "int \<Rightarrow> 'c option list option" where
  "allocate_host n = Some (replicate (nat n) None)"

text \<open>
  Modelled from the spec: \<^verbatim>\<open>set_to_zero_hip\<close> (hip_allocate_free.hpp) is not among the
  sources; it is the spec's \<^verbatim>\<open>zero()\<close>, here on a buffer of exactly \<open>n\<close> cells, each
  of which becomes \<open>0\<close>.
\<close>

definition set_to_zero_hip :: "int \<Rightarrow> 'c option list option \<Rightarrow> ('a::zero) list option" where
  "set_to_zero_hip n p = (case p of None \<Rightarrow> None | Some cells \<Rightarrow> Some (replicate (nat n) 0))"

text \<open>
  \<^verbatim>\<open>hipMemcpy(dst, src, n * sizeof(T), kind)\<close> of the HIP runtime, counted in cells.
  A transfer of no cells changes nothing, whatever the pointers are.  A transfer that
  does not fit both buffers is a failure of the runtime.
\<close>

definition hipMemcpy :: "'c list option \<Rightarrow> 'c list option \<Rightarrow> int \<Rightarrow> error + 'c list option" where
  "hipMemcpy dst src n =
     (if n = 0 then Inr dst
      else if n < 0 then Inl HipError
      else case (dst, src) of
             (Some d, Some s) \<Rightarrow>
               if nat n \<le> length d \<and> nat n \<le> length s
               then Inr (Some (take (nat n) s @ drop (nat n) d))
               else Inl HipError
           | _ \<Rightarrow> Inl HipError)"

subsection \<open>Construction, Clear, Allocate\<close>

text \<open>
  Modelled from the spec: the constructor of \<^verbatim>\<open>BaseVector\<close> (base_vector.cpp) is not
  among the sources.  A new vector is empty: \<^verbatim>\<open>size_\<close> and \<^verbatim>\<open>index_size_\<close> are 0
  (the copy functions assert \<^verbatim>\<open>index_size_ == 0\<close> on a vector they have just
  allocated).  The pointers are set to \<^verbatim>\<open>NULL\<close> by the constructor in hip_vector.cpp.
\<close>

definition new_HIPAcceleratorVector :: "Rocalution_Backend_Descriptor \<Rightarrow> 'a HIPAcceleratorVector" where
  "new_HIPAcceleratorVector backend =
     \<lparr>size_v = 0, index_size = 0, vec = None, index_array = None, index_buffer = None,
      host_buffer = None, device_buffer = None, local_backend = backend\<rparr>"

definition Clear :: "'a HIPAcceleratorVector \<Rightarrow> 'a HIPAcceleratorVector" where
  "Clear this =
     (let t1 = (if size_v this > 0 then this\<lparr>vec := None, size_v := 0\<rparr> else this)
      in if index_size t1 > 0
         then t1\<lparr>index_buffer := None, index_array := None, index_size := 0,
                 host_buffer := None, device_buffer := None\<rparr>
         else t1)"

definition Allocate :: "('a::zero) HIPAcceleratorVector \<Rightarrow> int \<Rightarrow> error + 'a HIPAcceleratorVector" where
  "Allocate this n =
     (if \<not> n \<ge> 0 then Inl AssertionFailed
      else let t1 = (if size_v this > 0 then Clear this else this)
           in if n > 0
              then Inr (t1\<lparr>vec := set_to_zero_hip n (allocate_hip n :: 'a option list option),
                          host_buffer := allocate_host (HIP_warp (local_backend t1)),
                          device_buffer := allocate_hip (HIP_warp (local_backend t1)),
                          size_v := n\<rparr>)
              else Inr t1)"

text \<open>
  Modelled from the spec: \<^verbatim>\<open>HostVector::Allocate\<close> (host_vector.cpp) is not among the
  sources.  The spec's \<^verbatim>\<open>Allocate\<close> clears any existing state, then allocates a
  zero-initialised buffer, and fails on a negative size.
\<close>

definition HostVector_Allocate :: "('a::zero) HostVector \<Rightarrow> int \<Rightarrow> error + 'a HostVector" where
  "HostVector_Allocate this n =
     (if \<not> n \<ge> 0 then Inl AssertionFailed
      else let t1 = this\<lparr>host_size := 0, host_index_size := 0, host_vec := None,
                         host_index_array := None\<rparr>
           in if n > 0 then Inr (t1\<lparr>host_vec := Some (replicate (nat n) 0), host_size := n\<rparr>)
              else Inr t1)"

text \<open>
  The data-model invariant of the spec (section 3): the buffer is non-null iff the
  size is positive, the index set is not larger than the vector, and each buffer has as
  many cells as its size field says.
\<close>

definition buffer_ok :: "int \<Rightarrow> 'c list option \<Rightarrow> bool" where
  "buffer_ok n p = (case p of None \<Rightarrow> n = 0 | Some xs \<Rightarrow> 0 < n \<and> int (length xs) = n)"

definition hip_inv :: "'a HIPAcceleratorVector \<Rightarrow> bool" where
  "hip_inv v = (0 \<le> index_size v \<and> index_size v \<le> size_v v \<and> buffer_ok (size_v v) (vec v)
                \<and> buffer_ok (index_size v) (index_array v)
                \<and> buffer_ok (index_size v) (index_buffer v))"

definition host_inv :: "'a HostVector \<Rightarrow> bool" where
  "host_inv v = (0 \<le> host_index_size v \<and> host_index_size v \<le> host_size v
                 \<and> buffer_ok (host_size v) (host_vec v)
                 \<and> buffer_ok (host_index_size v) (host_index_array v))"

fun vector_inv :: "'a BaseVector \<Rightarrow> bool" where
  "vector_inv (HIP v) = hip_inv v"
| "vector_inv (HOST v) = host_inv v"

subsection \<open>The object store\<close>

text \<open>
  The copy functions compare the addresses of their two vectors (\<^verbatim>\<open>this != hip_cast_vec\<close>)
  and write to one of them, so they run on a store from addresses to objects.
  \<open>pending\<close> counts the transfers enqueued with \<^verbatim>\<open>hipMemcpyAsync\<close> since the last
  synchronisation of the device: the caller may rely on their data only when it is 0
  again.  \<^verbatim>\<open>hipMemcpy\<close> returns when the transfer is complete and leaves the count as
  it is.
\<close>

record 'a heap =
  objs :: "nat \<Rightarrow> 'a BaseVector option"
  pending :: nat

definition obj_at :: "'a heap \<Rightarrow> nat \<Rightarrow> error + 'a BaseVector" where
  "obj_at h a = (case objs h a of None \<Rightarrow> Inl BadReference | Some b \<Rightarrow> Inr b)"

definition hip_at :: "'a heap \<Rightarrow> nat \<Rightarrow> error + 'a HIPAcceleratorVector" where
  "hip_at h a = (case objs h a of Some (HIP v) \<Rightarrow> Inr v | _ \<Rightarrow> Inl BadReference)"

definition host_at :: "'a heap \<Rightarrow> nat \<Rightarrow> error + 'a HostVector" where
  "host_at h a = (case objs h a of Some (HOST v) \<Rightarrow> Inr v | _ \<Rightarrow> Inl BadReference)"

definition put_hip :: "'a heap \<Rightarrow> nat \<Rightarrow> 'a HIPAcceleratorVector \<Rightarrow> 'a heap" where
  "put_hip h a v = h\<lparr>objs := (objs h)(a \<mapsto> HIP v)\<rparr>"

definition put_host :: "'a heap \<Rightarrow> nat \<Rightarrow> 'a HostVector \<Rightarrow> 'a heap" where
  "put_host h a v = h\<lparr>objs := (objs h)(a \<mapsto> HOST v)\<rparr>"

text \<open>
  \<^verbatim>\<open>hipMemcpyAsync\<close>: the same transfer, enqueued.
\<close>

definition enqueue :: "'a heap \<Rightarrow> 'a heap" where
  "enqueue h = h\<lparr>pending := Suc (pending h)\<rparr>"

subsection \<open>Copies\<close>

text \<open>
  The block that every copy function with a device destination starts with, on the
  destination \<open>dst\<close> and the source \<open>src\<close>:
  \<^verbatim>\<open>
    dst->Allocate(src->get_size());
    assert(dst->index_size_ == 0);
    if (src->index_size_ > 0) {
      dst->index_size_ = src->index_size_;
      allocate_hip<int>(dst->index_size_, &dst->index_array_);
      allocate_hip<ValueType>(dst->index_size_, &dst->index_buffer_);
    }
  \<close>
  The source is read again after \<^verbatim>\<open>Allocate\<close>, since it may be the destination itself.
\<close>

definition allocate_like :: "('a::zero) heap \<Rightarrow> nat \<Rightarrow> nat \<Rightarrow> error + 'a heap" where
  "allocate_like h dst src =
     seq (hip_at h dst) (\<lambda>d.
     seq (obj_at h src) (\<lambda>s.
     seq (Allocate d (get_size s)) (\<lambda>d1.
     let h1 = put_hip h dst d1 in
     if \<not> index_size d1 = 0 then Inl AssertionFailed
     else seq (obj_at h1 src) (\<lambda>s1.
          if get_index_size s1 > 0
          then Inr (put_hip h1 dst
                      (d1\<lparr>index_size := get_index_size s1,
                          index_array := allocate_hip (get_index_size s1),
                          index_buffer := allocate_hip (get_index_size s1)\<rparr>))
          else Inr h1))))"

text \<open>The same block in \<open>CopyToHost\<close>, where the destination is a host vector.\<close>

definition allocate_like_host :: "('a::zero) heap \<Rightarrow> nat \<Rightarrow> nat \<Rightarrow> error + 'a heap" where
  "allocate_like_host h dst src =
     seq (host_at h dst) (\<lambda>d.
     seq (hip_at h src) (\<lambda>s.
     seq (HostVector_Allocate d (size_v s)) (\<lambda>d1.
     if \<not> host_index_size d1 = 0 then Inl AssertionFailed
     else if index_size s > 0
          then Inr (put_host h dst
                      (d1\<lparr>host_index_size := index_size s,
                          host_index_array := allocate_host (index_size s)\<rparr>))
          else Inr (put_host h dst d1))))"

definition CopyFromHost :: "('a::zero) heap \<Rightarrow> nat \<Rightarrow> nat \<Rightarrow> error + 'a heap" where
  "CopyFromHost h this src =
     seq (obj_at h src) (\<lambda>src_obj.
     case src_obj of
       HOST _ \<Rightarrow>
         seq (hip_at h this) (\<lambda>t.
         seq (if size_v t = 0 then allocate_like h this src else Inr h) (\<lambda>h1.
         seq (hip_at h1 this) (\<lambda>t1.
         seq (host_at h1 src) (\<lambda>cast_vec.
           if \<not> host_size cast_vec = size_v t1 then Inl AssertionFailed
           else if \<not> host_index_size cast_vec = index_size t1 then Inl AssertionFailed
           else if size_v t1 > 0
                then seq (hipMemcpy (vec t1) (host_vec cast_vec) (size_v t1)) (\<lambda>v.
                     seq (hipMemcpy (index_array t1) (host_index_array cast_vec) (index_size t1)) (\<lambda>ia.
                     Inr (put_hip h1 this (t1\<lparr>vec := v, index_array := ia\<rparr>))))
                else Inr h1))))
     | HIP _ \<Rightarrow> Inl FatalError)"

definition CopyToHost :: "('a::zero) heap \<Rightarrow> nat \<Rightarrow> nat \<Rightarrow> error + 'a heap" where
  "CopyToHost h this dst =
     seq (obj_at h dst) (\<lambda>dst_obj.
     case dst_obj of
       HOST d \<Rightarrow>
         seq (hip_at h this) (\<lambda>t.
         seq (if host_size d = 0 then allocate_like_host h dst this else Inr h) (\<lambda>h1.
         seq (host_at h1 dst) (\<lambda>cast_vec.
           if \<not> host_size cast_vec = size_v t then Inl AssertionFailed
           else if \<not> host_index_size cast_vec = index_size t then Inl AssertionFailed
           else if size_v t > 0
                then seq (hipMemcpy (host_vec cast_vec) (vec t) (size_v t)) (\<lambda>v.
                     seq (hipMemcpy (host_index_array cast_vec) (index_array t) (index_size t)) (\<lambda>ia.
                     Inr (put_host h1 dst (cast_vec\<lparr>host_vec := v, host_index_array := ia\<rparr>))))
                else Inr h1)))
     | HIP _ \<Rightarrow> Inl FatalError)"

definition CopyFromHostAsync :: "('a::zero) heap \<Rightarrow> nat \<Rightarrow> nat \<Rightarrow> error + 'a heap" where
  "CopyFromHostAsync h this src =
     seq (obj_at h src) (\<lambda>src_obj.
     case src_obj of
       HOST _ \<Rightarrow>
         seq (hip_at h this) (\<lambda>t.
         seq (if size_v t = 0 then allocate_like h this src else Inr h) (\<lambda>h1.
         seq (hip_at h1 this) (\<lambda>t1.
         seq (host_at h1 src) (\<lambda>cast_vec.
           if \<not> host_size cast_vec = size_v t1 then Inl AssertionFailed
           else if \<not> host_index_size cast_vec = index_size t1 then Inl AssertionFailed
           else if size_v t1 > 0
                then seq (hipMemcpy (vec t1) (host_vec cast_vec) (size_v t1)) (\<lambda>v.
                     seq (hipMemcpy (index_array t1) (host_index_array cast_vec) (index_size t1)) (\<lambda>ia.
                     Inr (enqueue (enqueue (put_hip h1 this (t1\<lparr>vec := v, index_array := ia\<rparr>))))))
                else Inr h1))))
     | HIP _ \<Rightarrow> Inl FatalError)"

definition CopyToHostAsync :: "('a::zero) heap \<Rightarrow> nat \<Rightarrow> nat \<Rightarrow> error + 'a heap" where
  "CopyToHostAsync h this dst =
     seq (obj_at h dst) (\<lambda>dst_obj.
     case dst_obj of
       HOST d \<Rightarrow>
         seq (hip_at h this) (\<lambda>t.
         seq (if host_size d = 0 then allocate_like_host h dst this else Inr h) (\<lambda>h1.
         seq (host_at h1 dst) (\<lambda>cast_vec.
           if \<not> host_size cast_vec = size_v t then Inl AssertionFailed
           else if \<not> host_index_size cast_vec = index_size t then Inl AssertionFailed
           else if size_v t > 0
                then seq (hipMemcpy (host_vec cast_vec) (vec t) (size_v t)) (\<lambda>v.
                     seq (hipMemcpy (host_index_array cast_vec) (index_array t) (index_size t)) (\<lambda>ia.
                     Inr (enqueue (enqueue (put_host h1 dst
                            (cast_vec\<lparr>host_vec := v, host_index_array := ia\<rparr>))))))
                else Inr h1)))
     | HIP _ \<Rightarrow> Inl FatalError)"

definition CopyFrom :: "('a::zero) heap \<Rightarrow> nat \<Rightarrow> nat \<Rightarrow> error + 'a heap" where
  "CopyFrom h this src =
     seq (obj_at h src) (\<lambda>src_obj.
     case src_obj of
       HIP _ \<Rightarrow>
         seq (hip_at h this) (\<lambda>t.
         seq (if size_v t = 0 then allocate_like h this src else Inr h) (\<lambda>h1.
         seq (hip_at h1 this) (\<lambda>t1.
         seq (hip_at h1 src) (\<lambda>hip_cast_vec.
           if \<not> size_v hip_cast_vec = size_v t1 then Inl AssertionFailed
           else if \<not> index_size hip_cast_vec = index_size t1 then Inl AssertionFailed
           else if this \<noteq> src
                then if size_v t1 > 0
                     then seq (hipMemcpy (vec t1) (vec hip_cast_vec) (size_v t1)) (\<lambda>v.
                          seq (hipMemcpy (index_array t1) (index_array hip_cast_vec) (index_size t1)) (\<lambda>ia.
                          Inr (put_hip h1 this (t1\<lparr>vec := v, index_array := ia\<rparr>))))
                     else Inr h1
                else Inr h1))))
     | HOST _ \<Rightarrow> CopyFromHost h this src)"

definition CopyFromAsync :: "('a::zero) heap \<Rightarrow> nat \<Rightarrow> nat \<Rightarrow> error + 'a heap" where
  "CopyFromAsync h this src =
     seq (obj_at h src) (\<lambda>src_obj.
     case src_obj of
       HIP _ \<Rightarrow>
         seq (hip_at h this) (\<lambda>t.
         seq (if size_v t = 0 then allocate_like h this src else Inr h) (\<lambda>h1.
         seq (hip_at h1 this) (\<lambda>t1.
         seq (hip_at h1 src) (\<lambda>hip_cast_vec.
           if \<not> size_v hip_cast_vec = size_v t1 then Inl AssertionFailed
           else if \<not> index_size hip_cast_vec = index_size t1 then Inl AssertionFailed
           else if this \<noteq> src
                then if size_v t1 > 0
                     then seq (hipMemcpy (vec t1) (vec hip_cast_vec) (size_v t1)) (\<lambda>v.
                          seq (hipMemcpy (index_array t1) (index_array hip_cast_vec) (index_size t1)) (\<lambda>ia.
                          Inr (put_hip h1 this (t1\<lparr>vec := v, index_array := ia\<rparr>))))
                     else Inr h1
                else Inr h1))))
     | HOST _ \<Rightarrow> CopyFromHostAsync h this src)"

definition CopyTo :: "('a::zero) heap \<Rightarrow> nat \<Rightarrow> nat \<Rightarrow> error + 'a heap" where
  "CopyTo h this dst =
     seq (obj_at h dst) (\<lambda>dst_obj.
     case dst_obj of
       HIP d \<Rightarrow>
         seq (hip_at h this) (\<lambda>_.
         seq (if size_v d = 0 then allocate_like h dst this else Inr h) (\<lambda>h1.
         seq (hip_at h1 dst) (\<lambda>hip_cast_vec.
         seq (hip_at h1 this) (\<lambda>t1.
           if \<not> size_v hip_cast_vec = size_v t1 then Inl AssertionFailed
           else if \<not> index_size hip_cast_vec = index_size t1 then Inl AssertionFailed
           else if this \<noteq> dst
                then if size_v t1 > 0
                     then seq (hipMemcpy (vec hip_cast_vec) (vec t1) (size_v t1)) (\<lambda>v.
                          seq (hipMemcpy (index_array hip_cast_vec) (index_array t1) (index_size t1)) (\<lambda>ia.
                          Inr (put_hip h1 dst (hip_cast_vec\<lparr>vec := v, index_array := ia\<rparr>))))
                     else Inr h1
                else Inr h1))))
     | HOST _ \<Rightarrow> CopyToHost h this dst)"

definition CopyToAsync :: "('a::zero) heap \<Rightarrow> nat \<Rightarrow> nat \<Rightarrow> error + 'a heap" where
  "CopyToAsync h this dst =
     seq (obj_at h dst) (\<lambda>dst_obj.
     case dst_obj of
       HIP d \<Rightarrow>
         seq (hip_at h this) (\<lambda>_.
         seq (if size_v d = 0 then allocate_like h dst this else Inr h) (\<lambda>h1.
         seq (hip_at h1 dst) (\<lambda>hip_cast_vec.
         seq (hip_at h1 this) (\<lambda>t1.
           if \<not> size_v hip_cast_vec = size_v t1 then Inl AssertionFailed
           else if \<not> index_size hip_cast_vec = index_size t1 then Inl AssertionFailed
           else if this \<noteq> dst
                then if size_v t1 > 0
                     then seq (hipMemcpy (vec hip_cast_vec) (vec t1) (size_v t1)) (\<lambda>v.
                          seq (hipMemcpy (index_array hip_cast_vec) (index_array t1) (index_size t1)) (\<lambda>ia.
                          Inr (put_hip h1 dst (hip_cast_vec\<lparr>vec := v, index_array := ia\<rparr>))))
                     else Inr h1
                else Inr h1))))
     | HOST _ \<Rightarrow> CopyToHostAsync h this dst)"

subsection \<open>Device kernels and BLAS calls\<close>

text \<open>
  Modelled from the spec: the kernels (hip_kernels_vector.hpp) and the BLAS wrappers
  (hip_blas.hpp) are not among the sources.  Each works on the first \<open>n\<close> cells of its
  buffers, one cell at a time; a launch on a null or too short buffer is a failure
  of the runtime.  \<open>kernel2 n f x out\<close> is \<^verbatim>\<open>out[i] = f(x[i], out[i])\<close> and
  \<open>kernel3 n f x y out\<close> is \<^verbatim>\<open>out[i] = f(x[i], y[i], out[i])\<close>, for \<open>i < n\<close>.
\<close>

definition kernel2 ::
  "int \<Rightarrow> ('a \<Rightarrow> 'a \<Rightarrow> 'a) \<Rightarrow> 'a list option \<Rightarrow> 'a list option \<Rightarrow> error + 'a list option" where
  "kernel2 n f x out =
     (case (x, out) of
        (Some xs, Some os) \<Rightarrow>
          if 0 \<le> n \<and> nat n \<le> length xs \<and> nat n \<le> length os
          then Inr (Some (map2 f (take (nat n) xs) (take (nat n) os) @ drop (nat n) os))
          else Inl HipError
      | _ \<Rightarrow> Inl HipError)"

definition kernel3 ::
  "int \<Rightarrow> ('a \<Rightarrow> 'a \<Rightarrow> 'a \<Rightarrow> 'a) \<Rightarrow> 'a list option \<Rightarrow> 'a list option \<Rightarrow> 'a list option
   \<Rightarrow> error + 'a list option" where
  "kernel3 n f x y out =
     (case (x, y, out) of
        (Some xs, Some ys, Some os) \<Rightarrow>
          if 0 \<le> n \<and> nat n \<le> length xs \<and> nat n \<le> length ys \<and> nat n \<le> length os
          then Inr (Some (map (\<lambda>(a, b, c). f a b c)
                            (zip (take (nat n) xs) (zip (take (nat n) ys) (take (nat n) os)))
                          @ drop (nat n) os))
          else Inl HipError
      | _ \<Rightarrow> Inl HipError)"

text \<open>Modelled from the spec: \<open>AddScale\<close> is \<^verbatim>\<open>this += alpha * x\<close>.\<close>

definition hipblasTaxpy ::
  "int \<Rightarrow> ('a::comm_ring_1) \<Rightarrow> 'a list option \<Rightarrow> 'a list option \<Rightarrow> error + 'a list option" where
  "hipblasTaxpy n alpha x y = kernel2 n (\<lambda>xi yi. yi + alpha * xi) x y"

text \<open>Modelled from the spec: \<open>ScaleAdd\<close> is \<^verbatim>\<open>this = alpha * this + x\<close>.\<close>

definition kernel_scaleadd ::
  "int \<Rightarrow> ('a::comm_ring_1) \<Rightarrow> 'a list option \<Rightarrow> 'a list option \<Rightarrow> error + 'a list option" where
  "kernel_scaleadd n alpha x out = kernel2 n (\<lambda>xi oi. alpha * oi + xi) x out"

text \<open>Modelled from the spec: \<open>ScaleAddScale\<close> is \<^verbatim>\<open>this = alpha * this + beta * x\<close>.\<close>

definition kernel_scaleaddscale ::
  "int \<Rightarrow> ('a::comm_ring_1) \<Rightarrow> 'a \<Rightarrow> 'a list option \<Rightarrow> 'a list option \<Rightarrow> error + 'a list option" where
  "kernel_scaleaddscale n alpha beta x out = kernel2 n (\<lambda>xi oi. alpha * oi + beta * xi) x out"

text \<open>
  Modelled from the spec: \<open>ScaleAdd2\<close> is \<^verbatim>\<open>this = alpha * this + beta * x + gamma * y\<close>.
\<close>

definition kernel_scaleadd2 ::
  "int \<Rightarrow> ('a::comm_ring_1) \<Rightarrow> 'a \<Rightarrow> 'a \<Rightarrow> 'a list option \<Rightarrow> 'a list option \<Rightarrow> 'a list option
   \<Rightarrow> error + 'a list option" where
  "kernel_scaleadd2 n alpha beta gamma x y out =
     kernel3 n (\<lambda>xi yi oi. alpha * oi + beta * xi + gamma * yi) x y out"

text \<open>
  Modelled from the spec: \<open>PointWiseMult(x)\<close> multiplies this vector by \<open>x\<close> cell by
  cell, \<open>PointWiseMult(x, y)\<close> stores the products of the cells of \<open>x\<close> and \<open>y\<close>.
\<close>

definition kernel_pointwisemult ::
  "int \<Rightarrow> ('a::comm_ring_1) list option \<Rightarrow> 'a list option \<Rightarrow> error + 'a list option" where
  "kernel_pointwisemult n x out = kernel2 n (\<lambda>xi oi. oi * xi) x out"

definition kernel_pointwisemult2 ::
  "int \<Rightarrow> ('a::comm_ring_1) list option \<Rightarrow> 'a list option \<Rightarrow> 'a list option
   \<Rightarrow> error + 'a list option" where
  "kernel_pointwisemult2 n x y out = kernel3 n (\<lambda>xi yi oi. xi * yi) x y out"

text \<open>
  Modelled from the spec: the dot product of the first \<open>n\<close> cells.  Over a real element
  type conjugation changes nothing, so \<^verbatim>\<open>hipblasTdot\<close> and \<^verbatim>\<open>hipblasTdotc\<close> are the
  same sum here.
\<close>

definition hipblasTdot ::
  "int \<Rightarrow> ('a::comm_ring_1) list option \<Rightarrow> 'a list option \<Rightarrow> error + 'a" where
  "hipblasTdot n x y =
     (case (x, y) of
        (Some xs, Some ys) \<Rightarrow>
          if 0 \<le> n \<and> nat n \<le> length xs \<and> nat n \<le> length ys
          then Inr (sum_list (map2 (*) (take (nat n) xs) (take (nat n) ys)))
          else Inl HipError
      | _ \<Rightarrow> Inl HipError)"

definition hipblasTdotc ::
  "int \<Rightarrow> ('a::comm_ring_1) list option \<Rightarrow> 'a list option \<Rightarrow> error + 'a" where
  "hipblasTdotc n x y = hipblasTdot n x y"





text \<open>
  Modelled from the spec: \<^verbatim>\<open>kernel_permute\<close> and \<^verbatim>\<open>kernel_permute_backward\<close>
  (hip_kernels_vector.hpp) are not among the sources.  The comments at their launches
  and the spec give them as \<^verbatim>\<open>out[perm[i]] = in[i]\<close> and \<^verbatim>\<open>out[i] = in[perm[i]]\<close>
  for \<open>i < n\<close>.  The loops below run the \<open>n\<close> threads in the order of \<open>i\<close>, with \<open>k\<close>
  of them left, and report an access outside a buffer.
\<close>

fun permute_loop :: "nat \<Rightarrow> nat \<Rightarrow> int list \<Rightarrow> 'a list \<Rightarrow> 'a list \<Rightarrow> error + 'a list" where
  "permute_loop 0 i perm inp out = Inr out"
| "permute_loop (Suc k) i perm inp out =
     (if i < length perm \<and> i < length inp \<and> 0 \<le> perm ! i \<and> nat (perm ! i) < length out
      then permute_loop k (Suc i) perm inp (out[nat (perm ! i) := inp ! i])
      else Inl OutOfBounds)"

fun permute_backward_loop :: "nat \<Rightarrow> nat \<Rightarrow> int list \<Rightarrow> 'a list \<Rightarrow> 'a list \<Rightarrow> error + 'a list" where
  "permute_backward_loop 0 i perm inp out = Inr out"
| "permute_backward_loop (Suc k) i perm inp out =
     (if i < length perm \<and> i < length out \<and> 0 \<le> perm ! i \<and> nat (perm ! i) < length inp
      then permute_backward_loop k (Suc i) perm inp (out[i := inp ! nat (perm ! i)])
      else Inl OutOfBounds)"

definition kernel_permute ::
  "int \<Rightarrow> int list option \<Rightarrow> 'a list option \<Rightarrow> 'a list option \<Rightarrow> error + 'a list option" where
  "kernel_permute n perm inp out =
     (case (perm, inp, out) of
        (Some p, Some xs, Some os) \<Rightarrow> seq (permute_loop (nat n) 0 p xs os) (\<lambda>r. Inr (Some r))
      | _ \<Rightarrow> Inl OutOfBounds)"

definition kernel_permute_backward ::
  "int \<Rightarrow> int list option \<Rightarrow> 'a list option \<Rightarrow> 'a list option \<Rightarrow> error + 'a list option" where
  "kernel_permute_backward n perm inp out =
     (case (perm, inp, out) of
        (Some p, Some xs, Some os) \<Rightarrow>
          seq (permute_backward_loop (nat n) 0 p xs os) (\<lambda>r. Inr (Some r))
      | _ \<Rightarrow> Inl OutOfBounds)"

subsection \<open>Arithmetic\<close>

text \<open>
  The operand is passed by reference and only read; the functions below take its value.
  The type variable stands for the floating-point element types; the specialisations
  for \<^verbatim>\<open>int\<close> follow as functions of their own.
\<close>

definition AddScale ::
  "('a::comm_ring_1) HIPAcceleratorVector \<Rightarrow> 'a BaseVector \<Rightarrow> 'a \<Rightarrow> error + 'a HIPAcceleratorVector" where
  "AddScale this x alpha =
     (if size_v this > 0 then
        if \<not> size_v this = get_size x then Inl AssertionFailed
        else case x of
               HOST _ \<Rightarrow> Inl AssertionFailed
             | HIP cast_x \<Rightarrow>
                 seq (hipblasTaxpy (size_v this) alpha (vec cast_x) (vec this)) (\<lambda>v.
                 Inr (this\<lparr>vec := v\<rparr>))
      else Inr this)"

definition AddScale_int ::
  "int HIPAcceleratorVector \<Rightarrow> int BaseVector \<Rightarrow> int \<Rightarrow> error + int HIPAcceleratorVector" where
  "AddScale_int this x alpha = Inl FatalError"

definition ScaleAdd ::
  "('a::comm_ring_1) HIPAcceleratorVector \<Rightarrow> 'a \<Rightarrow> 'a BaseVector \<Rightarrow> error + 'a HIPAcceleratorVector" where
  "ScaleAdd this alpha x =
     (if size_v this > 0 then
        if \<not> size_v this = get_size x then Inl AssertionFailed
        else case x of
               HOST _ \<Rightarrow> Inl AssertionFailed
             | HIP cast_x \<Rightarrow>
                 seq (kernel_scaleadd (size_v this) alpha (vec cast_x) (vec this)) (\<lambda>v.
                 Inr (this\<lparr>vec := v\<rparr>))
      else Inr this)"

definition ScaleAddScale ::
  "('a::comm_ring_1) HIPAcceleratorVector \<Rightarrow> 'a \<Rightarrow> 'a BaseVector \<Rightarrow> 'a
   \<Rightarrow> error + 'a HIPAcceleratorVector" where
  "ScaleAddScale this alpha x beta =
     (if size_v this > 0 then
        if \<not> size_v this = get_size x then Inl AssertionFailed
        else case x of
               HOST _ \<Rightarrow> Inl AssertionFailed
             | HIP cast_x \<Rightarrow>
                 seq (kernel_scaleaddscale (size_v this) alpha beta (vec cast_x) (vec this)) (\<lambda>v.
                 Inr (this\<lparr>vec := v\<rparr>))
      else Inr this)"

definition ScaleAdd2 ::
  "('a::comm_ring_1) HIPAcceleratorVector \<Rightarrow> 'a \<Rightarrow> 'a BaseVector \<Rightarrow> 'a \<Rightarrow> 'a BaseVector \<Rightarrow> 'a
   \<Rightarrow> error + 'a HIPAcceleratorVector" where
  "ScaleAdd2 this alpha x beta y gamma =
     (if size_v this > 0 then
        if \<not> size_v this = get_size x then Inl AssertionFailed
        else if \<not> size_v this = get_size y then Inl AssertionFailed
        else case (x, y) of
               (HIP cast_x, HIP cast_y) \<Rightarrow>
                 seq (kernel_scaleadd2 (size_v this) alpha beta gamma
                        (vec cast_x) (vec cast_y) (vec this)) (\<lambda>v.
                 Inr (this\<lparr>vec := v\<rparr>))
             | _ \<Rightarrow> Inl AssertionFailed
      else Inr this)"

definition PointWiseMult ::
  "('a::comm_ring_1) HIPAcceleratorVector \<Rightarrow> 'a BaseVector \<Rightarrow> error + 'a HIPAcceleratorVector" where
  "PointWiseMult this x =
     (if size_v this > 0 then
        if \<not> size_v this = get_size x then Inl AssertionFailed
        else case x of
               HOST _ \<Rightarrow> Inl AssertionFailed
             | HIP cast_x \<Rightarrow>
                 seq (kernel_pointwisemult (size_v this) (vec cast_x) (vec this)) (\<lambda>v.
                 Inr (this\<lparr>vec := v\<rparr>))
      else Inr this)"

definition PointWiseMult2 ::
  "('a::comm_ring_1) HIPAcceleratorVector \<Rightarrow> 'a BaseVector \<Rightarrow> 'a BaseVector
   \<Rightarrow> error + 'a HIPAcceleratorVector" where
  "PointWiseMult2 this x y =
     (if size_v this > 0 then
        if \<not> size_v this = get_size x then Inl AssertionFailed
        else if \<not> size_v this = get_size y then Inl AssertionFailed
        else case (x, y) of
               (HIP cast_x, HIP cast_y) \<Rightarrow>
                 seq (kernel_pointwisemult2 (size_v this) (vec cast_x) (vec cast_y) (vec this)) (\<lambda>v.
                 Inr (this\<lparr>vec := v\<rparr>))
             | _ \<Rightarrow> Inl AssertionFailed
      else Inr this)"

text \<open>
  \<open>Dot\<close> and \<open>DotNonConj\<close> are \<^verbatim>\<open>const\<close>: they return a value and leave the vector as
  it is.  Their assertions stand before the test for an empty vector.
\<close>

definition Dot :: "('a::comm_ring_1) HIPAcceleratorVector \<Rightarrow> 'a BaseVector \<Rightarrow> error + 'a" where
  "Dot this x =
     (if \<not> size_v this = get_size x then Inl AssertionFailed
      else case x of
             HOST _ \<Rightarrow> Inl AssertionFailed
           | HIP cast_x \<Rightarrow>
               if size_v this > 0 then hipblasTdot (size_v this) (vec this) (vec cast_x)
               else Inr 0)"

definition Dot_int :: "int HIPAcceleratorVector \<Rightarrow> int BaseVector \<Rightarrow> error + int" where
  "Dot_int this x = Inl FatalError"

definition DotNonConj :: "('a::comm_ring_1) HIPAcceleratorVector \<Rightarrow> 'a BaseVector \<Rightarrow> error + 'a" where
  "DotNonConj this x =
     (if \<not> size_v this = get_size x then Inl AssertionFailed
      else case x of
             HOST _ \<Rightarrow> Inl AssertionFailed
           | HIP cast_x \<Rightarrow>
               if size_v this > 0 then hipblasTdotc (size_v this) (vec this) (vec cast_x)
               else Inr 0)"

definition DotNonConj_int :: "int HIPAcceleratorVector \<Rightarrow> int BaseVector \<Rightarrow> error + int" where
  "DotNonConj_int this x = Inl FatalError"



subsection \<open>Permutations\<close>

text \<open>
  \<open>Permute\<close> copies the vector into a local \<^verbatim>\<open>vec_tmp\<close> with \<open>Allocate\<close> and
  \<open>CopyFrom\<close>, then scatters from the copy.  The two objects live in a store of their
  own: the receiver at address 0, \<^verbatim>\<open>vec_tmp\<close> at address 1.  The permutation is a vector
  of \<^verbatim>\<open>int\<close>, read only.
\<close>

definition copy_to_tmp :: "('a::zero) HIPAcceleratorVector \<Rightarrow> error + 'a HIPAcceleratorVector" where
  "copy_to_tmp this =
     seq (Allocate (new_HIPAcceleratorVector (local_backend this)) (size_v this)) (\<lambda>vec_tmp.
     seq (CopyFrom \<lparr>objs = [0 \<mapsto> HIP this, 1 \<mapsto> HIP vec_tmp], pending = 0\<rparr> 1 0) (\<lambda>h.
     hip_at h 1))"

definition Permute ::
  "('a::zero) HIPAcceleratorVector \<Rightarrow> int BaseVector \<Rightarrow> error + 'a HIPAcceleratorVector" where
  "Permute this permutation =
     (if size_v this > 0 then
        if \<not> size_v this = get_size permutation then Inl AssertionFailed
        else case permutation of
               HOST _ \<Rightarrow> Inl AssertionFailed
             | HIP cast_perm \<Rightarrow>
                 seq (copy_to_tmp this) (\<lambda>vec_tmp.
                 seq (kernel_permute (size_v this) (vec cast_perm) (vec vec_tmp) (vec this)) (\<lambda>v.
                 Inr (this\<lparr>vec := v\<rparr>)))
      else Inr this)"

definition PermuteBackward ::
  "('a::zero) HIPAcceleratorVector \<Rightarrow> int BaseVector \<Rightarrow> error + 'a HIPAcceleratorVector" where
  "PermuteBackward this permutation =
     (if size_v this > 0 then
        if \<not> size_v this = get_size permutation then Inl AssertionFailed
        else case permutation of
               HOST _ \<Rightarrow> Inl AssertionFailed
             | HIP cast_perm \<Rightarrow>
                 seq (copy_to_tmp this) (\<lambda>vec_tmp.
                 seq (kernel_permute_backward (size_v this) (vec cast_perm) (vec vec_tmp) (vec this)) (\<lambda>v.
                 Inr (this\<lparr>vec := v\<rparr>)))
      else Inr this)"

text \<open>
  The index array \<open>p\<close> is a bijection on \<open>0 .. n - 1\<close>: it has \<open>n\<close> entries, all of them
  in range and no two equal.
\<close>

definition is_permutation :: "nat \<Rightarrow> int list \<Rightarrow> bool" where
  "is_permutation n p = (length p = n \<and> distinct p \<and> list_all (\<lambda>k. 0 \<le> k \<and> k < int n) p)"

subsection \<open>Handing the element buffer over, and the index set\<close>

text \<open>
  \<open>SetDataPtr\<close> takes a device buffer from the caller (the pointer \<^verbatim>\<open>*ptr\<close> and the
  number of elements), \<open>LeaveDataPtr\<close> gives the element buffer back through
  \<^verbatim>\<open>*ptr\<close> and leaves the vector with size 0.  Neither looks at the index set: after
  \<open>LeaveDataPtr\<close> the vector is empty and still has the index set it had.
  \<^verbatim>\<open>hipDeviceSynchronize\<close> waits for the device and changes no field.
\<close>

definition SetDataPtr ::
  "'a HIPAcceleratorVector \<Rightarrow> 'a list option \<Rightarrow> int \<Rightarrow> error + 'a HIPAcceleratorVector" where
  "SetDataPtr this ptr n =
     (if \<not> ptr \<noteq> None then Inl AssertionFailed
      else if \<not> n > 0 then Inl AssertionFailed
      else Inr (this\<lparr>vec := ptr, size_v := n,
                     host_buffer := allocate_host (HIP_warp (local_backend this)),
                     device_buffer := allocate_hip (HIP_warp (local_backend this))\<rparr>))"

definition LeaveDataPtr ::
  "'a HIPAcceleratorVector \<Rightarrow> error + ('a HIPAcceleratorVector \<times> 'a list option)" where
  "LeaveDataPtr this =
     (if \<not> size_v this > 0 then Inl AssertionFailed
      else Inr (this\<lparr>vec := None, host_buffer := None, device_buffer := None, size_v := 0\<rparr>,
                vec this))"

text \<open>
  \<open>SetIndexArray\<close> allocates the two index buffers and copies the caller's host
  array \<open>index\<close> into the index array.  The source has no \<^verbatim>\<open>CHECK_HIP_ERROR\<close> after
  that transfer: when it fails, the index array stays as it was allocated.
\<close>

definition SetIndexArray ::
  "'a HIPAcceleratorVector \<Rightarrow> int \<Rightarrow> int list \<Rightarrow> error + 'a HIPAcceleratorVector" where
  "SetIndexArray this n index =
     (if \<not> n > 0 then Inl AssertionFailed
      else if \<not> size_v this \<ge> n then Inl AssertionFailed
      else let fresh = allocate_hip n
           in Inr (this\<lparr>index_size := n,
                        index_array := (case hipMemcpy fresh (Some (map Some index)) n of
                                          Inr copied \<Rightarrow> copied
                                        | Inl _ \<Rightarrow> fresh),
                        index_buffer := allocate_hip n\<rparr>))"

text \<open>
  The part of the data-model invariant that every member function keeps: each
  buffer is null when its size field is 0 and has as many cells as that field says
  otherwise.  It does not say that the index set is no larger than the vector, which
  \<open>LeaveDataPtr\<close> does not keep.
\<close>

definition rep_ok :: "'a HIPAcceleratorVector \<Rightarrow> bool" where
  "rep_ok v = (buffer_ok (size_v v) (vec v) \<and> buffer_ok (index_size v) (index_array v)
               \<and> buffer_ok (index_size v) (index_buffer v))"

definition host_rep_ok :: "'a HostVector \<Rightarrow> bool" where
  "host_rep_ok v = (buffer_ok (host_size v) (host_vec v)
                    \<and> buffer_ok (host_index_size v) (host_index_array v))"

fun vector_rep_ok :: "'a BaseVector \<Rightarrow> bool" where
  "vector_rep_ok (HIP v) = rep_ok v"
| "vector_rep_ok (HOST v) = host_rep_ok v"


section \<open>The 2D Laplace stencil on the host (host_stencil_laplace2d.cpp)\<close>

text \<open>
  The stencil object holds the number of dimensions (2, set by the constructor) and the
  grid size \<^verbatim>\<open>size_\<close> along each axis, here \<open>size_s\<close>.
\<close>

record HostStencilLaplace2D =
  ndim :: int
  size_s :: int

text \<open>The largest value of the 32-bit \<^verbatim>\<open>int\<close> of the source.\<close>

definition INT_MAX :: int where
  "INT_MAX = 2147483647"

text \<open>
  Modelled from the spec: \<^verbatim>\<open>get_nrow\<close> (base_stencil.cpp) is not among the sources.
  The operator of a grid with \<^verbatim>\<open>size_\<close> points along each of its axes has one row per
  grid point.  The function returns an \<^verbatim>\<open>int\<close>: a number of rows that does not fit is
  a signed overflow.  When it fits, so does every index \<^verbatim>\<open>i*size_ + j\<close> that the loops
  of the sweep compute on a grid of size at least 2, since none of them exceeds the
  number of rows; on the grid of size 1 the indices computed are between -1 and 1.
\<close>

definition get_nrow :: "HostStencilLaplace2D \<Rightarrow> error + int" where
  "get_nrow st =
     (if size_s st ^ nat (ndim st) \<le> INT_MAX then Inr (size_s st ^ nat (ndim st))
      else Inl IntOverflow)"

definition get_nnz :: "HostStencilLaplace2D \<Rightarrow> int" where
  "get_nnz st = 5"

text \<open>
  Array accesses.  \<^verbatim>\<open>vec_[k]\<close> with \<open>k\<close> outside the buffer is undefined behaviour;
  an assignment whose reads and whose write are not all inside the buffers gives
  \<open>OutOfBounds\<close>; its right-hand side \<open>rhs\<close> is evaluated only when they are.
  \<open>asg old new\<close> is the assignment operator: \<open>new\<close> for \<^verbatim>\<open>=\<close> and
  \<open>old + new\<close> for \<^verbatim>\<open>+=\<close>.
\<close>

definition in_bounds :: "'a list \<Rightarrow> int \<Rightarrow> bool" where
  "in_bounds xs k = (0 \<le> k \<and> k < int (length xs))"

definition cell_at :: "'a list \<Rightarrow> int \<Rightarrow> 'a" where
  "cell_at xs k = xs ! nat k"

definition assign ::
  "('a \<Rightarrow> 'a \<Rightarrow> 'a) \<Rightarrow> 'a list \<Rightarrow> int list \<Rightarrow> 'a list \<Rightarrow> int \<Rightarrow> (unit \<Rightarrow> 'a) \<Rightarrow> error + 'a list" where
  "assign asg inp reads out idx rhs =
     (if list_all (in_bounds inp) reads \<and> in_bounds out idx
      then Inr (out[nat idx := asg (cell_at out idx) (rhs ())])
      else Inl OutOfBounds)"

text \<open>
  \<^verbatim>\<open>for (int i = lo; i < hi; ++i) body\<close>, with \<open>k\<close> iterations left.  The loops carry
  \<^verbatim>\<open>#pragma omp parallel for\<close>; the model runs the iterations in the order of \<open>i\<close>.
\<close>

fun for_loop :: "nat \<Rightarrow> int \<Rightarrow> (int \<Rightarrow> 's \<Rightarrow> error + 's) \<Rightarrow> 's \<Rightarrow> error + 's" where
  "for_loop 0 i body st = Inr st"
| "for_loop (Suc k) i body st =
     (case body i st of Inl e \<Rightarrow> Inl e | Inr st' \<Rightarrow> for_loop k (i + 1) body st')"

definition for_range :: "int \<Rightarrow> int \<Rightarrow> (int \<Rightarrow> 's \<Rightarrow> error + 's) \<Rightarrow> 's \<Rightarrow> error + 's" where
  "for_range lo hi body st = for_loop (nat (hi - lo)) lo body st"

text \<open>The assignments, in the order of the source.\<close>

definition interior_point :: "('a \<Rightarrow> 'a \<Rightarrow> 'a) \<Rightarrow> int \<Rightarrow> ('a::comm_ring_1) list \<Rightarrow> int \<Rightarrow> int \<Rightarrow> 'a list \<Rightarrow> error + 'a list" where
  "interior_point asg s inp i j out =
     (let idx = i * s + j
      in assign asg inp [idx - s, idx - 1, idx, idx + 1, idx + s] out idx
           (\<lambda>_. - 1 * cell_at inp (idx - s) + - 1 * cell_at inp (idx - 1) + 4 * cell_at inp idx
            + - 1 * cell_at inp (idx + 1) + - 1 * cell_at inp (idx + s)))"

definition first_row :: "('a \<Rightarrow> 'a \<Rightarrow> 'a) \<Rightarrow> int \<Rightarrow> ('a::comm_ring_1) list \<Rightarrow> int \<Rightarrow> 'a list \<Rightarrow> error + 'a list" where
  "first_row asg s inp j out =
     (let idx = 0 * s + j
      in assign asg inp [idx - 1, idx, idx + 1, idx + s] out idx
           (\<lambda>_. - 1 * cell_at inp (idx - 1) + 4 * cell_at inp idx + - 1 * cell_at inp (idx + 1)
            + - 1 * cell_at inp (idx + s)))"

definition last_row :: "('a \<Rightarrow> 'a \<Rightarrow> 'a) \<Rightarrow> int \<Rightarrow> ('a::comm_ring_1) list \<Rightarrow> int \<Rightarrow> 'a list \<Rightarrow> error + 'a list" where
  "last_row asg s inp j out =
     (let idx = (s - 1) * s + j
      in assign asg inp [idx - s, idx - 1, idx, idx + 1] out idx
           (\<lambda>_. - 1 * cell_at inp (idx - s) + - 1 * cell_at inp (idx - 1) + 4 * cell_at inp idx
            + - 1 * cell_at inp (idx + 1)))"

definition first_column :: "('a \<Rightarrow> 'a \<Rightarrow> 'a) \<Rightarrow> int \<Rightarrow> ('a::comm_ring_1) list \<Rightarrow> int \<Rightarrow> 'a list \<Rightarrow> error + 'a list" where
  "first_column asg s inp i out =
     (let idx = i * s + 0
      in assign asg inp [idx - s, idx, idx + 1, idx + s] out idx
           (\<lambda>_. - 1 * cell_at inp (idx - s) + 4 * cell_at inp idx + - 1 * cell_at inp (idx + 1)
            + - 1 * cell_at inp (idx + s)))"

definition last_column :: "('a \<Rightarrow> 'a \<Rightarrow> 'a) \<Rightarrow> int \<Rightarrow> ('a::comm_ring_1) list \<Rightarrow> int \<Rightarrow> 'a list \<Rightarrow> error + 'a list" where
  "last_column asg s inp i out =
     (let idx = i * s + s - 1
      in assign asg inp [idx - s, idx - 1, idx, idx + s] out idx
           (\<lambda>_. - 1 * cell_at inp (idx - s) + - 1 * cell_at inp (idx - 1) + 4 * cell_at inp idx
            + - 1 * cell_at inp (idx + s)))"

definition corner_00 :: "('a \<Rightarrow> 'a \<Rightarrow> 'a) \<Rightarrow> int \<Rightarrow> ('a::comm_ring_1) list \<Rightarrow> 'a list \<Rightarrow> error + 'a list" where
  "corner_00 asg s inp out =
     (let idx = 0 * s + 0
      in assign asg inp [idx, idx + 1, idx + s] out idx
           (\<lambda>_. 4 * cell_at inp idx + - 1 * cell_at inp (idx + 1) + - 1 * cell_at inp (idx + s)))"

definition corner_0n :: "('a \<Rightarrow> 'a \<Rightarrow> 'a) \<Rightarrow> int \<Rightarrow> ('a::comm_ring_1) list \<Rightarrow> 'a list \<Rightarrow> error + 'a list" where
  "corner_0n asg s inp out =
     (let idx = 0 * s + s - 1
      in assign asg inp [idx - 1, idx, idx + s] out idx
           (\<lambda>_. - 1 * cell_at inp (idx - 1) + 4 * cell_at inp idx + - 1 * cell_at inp (idx + s)))"

definition corner_n0 :: "('a \<Rightarrow> 'a \<Rightarrow> 'a) \<Rightarrow> int \<Rightarrow> ('a::comm_ring_1) list \<Rightarrow> 'a list \<Rightarrow> error + 'a list" where
  "corner_n0 asg s inp out =
     (let idx = (s - 1) * s + 0
      in assign asg inp [idx - s, idx, idx + 1] out idx
           (\<lambda>_. - 1 * cell_at inp (idx - s) + 4 * cell_at inp idx + - 1 * cell_at inp (idx + 1)))"

definition corner_nn :: "('a \<Rightarrow> 'a \<Rightarrow> 'a) \<Rightarrow> int \<Rightarrow> ('a::comm_ring_1) list \<Rightarrow> 'a list \<Rightarrow> error + 'a list" where
  "corner_nn asg s inp out =
     (let idx = (s - 1) * s + s - 1
      in assign asg inp [idx - s, idx - 1, idx] out idx
           (\<lambda>_. - 1 * cell_at inp (idx - s) + - 1 * cell_at inp (idx - 1) + 4 * cell_at inp idx))"

text \<open>
  The body of \<open>Apply\<close> and of \<open>ApplyAdd\<close>, which differ in the assignment operator
  only: the interior, the two boundary loops, the four corner points.
\<close>

definition sweep :: "('a \<Rightarrow> 'a \<Rightarrow> 'a) \<Rightarrow> int \<Rightarrow> ('a::comm_ring_1) list \<Rightarrow> 'a list \<Rightarrow> error + 'a list" where
  "sweep asg s inp out =
     seq (for_range 1 (s - 1) (\<lambda>i. for_range 1 (s - 1) (\<lambda>j. interior_point asg s inp i j)) out) (\<lambda>out.
     seq (for_range 1 (s - 1) (\<lambda>j out. seq (first_row asg s inp j out) (last_row asg s inp j)) out) (\<lambda>out.
     seq (for_range 1 (s - 1) (\<lambda>i out. seq (first_column asg s inp i out) (last_column asg s inp i)) out) (\<lambda>out.
     seq (corner_00 asg s inp out) (\<lambda>out.
     seq (corner_0n asg s inp out) (\<lambda>out.
     seq (corner_n0 asg s inp out) (\<lambda>out.
     corner_nn asg s inp out))))))"

text \<open>
  The checks before the loops, shared by both functions: the assertions on the sizes,
  the two casts to host vectors, and the buffers behind the two vectors.  \<open>in\<close> and
  \<open>out\<close> are two objects.
\<close>

definition stencil_run ::
  "('a \<Rightarrow> 'a \<Rightarrow> 'a) \<Rightarrow> HostStencilLaplace2D \<Rightarrow> ('a::comm_ring_1) BaseVector \<Rightarrow> 'a BaseVector
   \<Rightarrow> error + 'a BaseVector" where
  "stencil_run asg this inp out =
     (if ndim this > 0 \<and> size_s this > 0 then
        if \<not> get_size inp \<ge> 0 then Inl AssertionFailed
        else if \<not> get_size out \<ge> 0 then Inl AssertionFailed
        else seq (get_nrow this) (\<lambda>nrow.
        if \<not> get_size inp = nrow then Inl AssertionFailed
        else if \<not> get_size out = nrow then Inl AssertionFailed
        else if \<not> get_size out = get_size inp then Inl AssertionFailed
        else case (inp, out) of
               (HOST cast_in, HOST cast_out) \<Rightarrow>
                 (case (host_vec cast_in, host_vec cast_out) of
                    (Some xs, Some os) \<Rightarrow>
                      seq (sweep asg (size_s this) xs os) (\<lambda>r. Inr (HOST (cast_out\<lparr>host_vec := Some r\<rparr>)))
                  | _ \<Rightarrow> Inl OutOfBounds)
             | _ \<Rightarrow> Inl AssertionFailed)
      else Inr out)"

definition Apply ::
  "HostStencilLaplace2D \<Rightarrow> ('a::comm_ring_1) BaseVector \<Rightarrow> 'a BaseVector \<Rightarrow> error + 'a BaseVector" where
  "Apply this inp out = stencil_run (\<lambda>old new. new) this inp out"

text \<open>\<open>ApplyAdd\<close> takes \<^verbatim>\<open>scalar\<close> and never reads it.\<close>

definition ApplyAdd ::
  "HostStencilLaplace2D \<Rightarrow> ('a::comm_ring_1) BaseVector \<Rightarrow> 'a \<Rightarrow> 'a BaseVector \<Rightarrow> error + 'a BaseVector" where
  "ApplyAdd this inp scalar out = stencil_run (\<lambda>old new. old + new) this inp out"

text \<open>
  The 5-point Laplacian of C1 and C2, truncated at the boundary of the \<open>s\<close> by \<open>s\<close>
  grid: row \<open>i * s + j\<close> of \<open>A \<cdot> inp\<close>.
\<close>

definition laplace :: "int \<Rightarrow> ('a::comm_ring_1) list \<Rightarrow> int \<Rightarrow> int \<Rightarrow> 'a" where
  "laplace s inp i j =
     4 * cell_at inp (i * s + j)
     - (if 0 < i then cell_at inp ((i - 1) * s + j) else 0)
     - (if i < s - 1 then cell_at inp ((i + 1) * s + j) else 0)
     - (if 0 < j then cell_at inp (i * s + j - 1) else 0)
     - (if j < s - 1 then cell_at inp (i * s + j + 1) else 0)"

text \<open>
  The state of \<open>out\<close> in the middle of a sweep over the \<open>s\<close> by \<open>s\<close> grid: the
  points \<open>(i, j)\<close> that \<open>W\<close> holds of have been assigned their row of the Laplacian, the
  others still hold what \<open>out0\<close>, the vector at the start, holds.
\<close>

definition written ::
  "(int \<Rightarrow> int \<Rightarrow> bool) \<Rightarrow> ('a \<Rightarrow> 'a \<Rightarrow> 'a) \<Rightarrow> int \<Rightarrow> ('a::comm_ring_1) list \<Rightarrow> 'a list \<Rightarrow> 'a list
   \<Rightarrow> bool" where
  "written W asg s inp out0 out =
     (length out = length out0
      \<and> (\<forall>i j. 0 \<le> i \<and> i < s \<and> 0 \<le> j \<and> j < s \<longrightarrow>
            cell_at out (i * s + j)
              = (if W i j then asg (cell_at out0 (i * s + j)) (laplace s inp i j)
                 else cell_at out0 (i * s + j))))"

subsection \<open>What a copy is to achieve\<close>

text \<open>
  The contents of a vector of either class, and the relation between a destination and
  its source after a copy: the same size, the same index-set size, the same elements and
  the same index array.
\<close>

fun get_vec :: "'a BaseVector \<Rightarrow> 'a list option" where
  "get_vec (HIP v) = vec v"
| "get_vec (HOST v) = host_vec v"

fun get_index_array :: "'a BaseVector \<Rightarrow> int option list option" where
  "get_index_array (HIP v) = index_array v"
| "get_index_array (HOST v) = host_index_array v"

definition same_contents :: "'a BaseVector \<Rightarrow> 'a BaseVector \<Rightarrow> bool" where
  "same_contents a b =
     (get_size a = get_size b \<and> get_index_size a = get_index_size b
      \<and> get_vec a = get_vec b \<and> get_index_array a = get_index_array b)"

text \<open>
  The index buffer of a device vector is fresh: as many cells as the index set, none
  of them written yet (and no buffer for an empty index set).
\<close>

fun fresh_index_buffer :: "'a BaseVector \<Rightarrow> bool" where
  "fresh_index_buffer (HIP v) =
     (index_buffer v = (if 0 < index_size v then Some (replicate (nat (index_size v)) None)
                        else None))"
| "fresh_index_buffer (HOST v) = True"


section \<open>Concrete objects\<close>

definition mg3 :: "nat MultiGrid" where
  "mg3 = \<lparr>build = False, levels = 3, scaling = True, op_level = None,
          restrict_op_level = None, prolong_op_level = None\<rparr>"

definition mg0 :: "nat MultiGrid" where
  "mg0 = \<lparr>build = False, levels = 0, scaling = True, op_level = None,
          restrict_op_level = None, prolong_op_level = None\<rparr>"

definition backend0 :: Rocalution_Backend_Descriptor where
  "backend0 = \<lparr>HIP_warp = 64, HIP_block_size = 256, HIP_max_threads = 65536\<rparr>"

text \<open>An empty vector, and vectors of three elements without and with an index set.\<close>

definition v_empty :: "real HIPAcceleratorVector" where
  "v_empty = new_HIPAcceleratorVector backend0"

definition v3 :: "real HIPAcceleratorVector" where
  "v3 = \<lparr>size_v = 3, index_size = 0, vec = Some [5, - 7, 2], index_array = None,
         index_buffer = None, host_buffer = allocate_host 64, device_buffer = allocate_hip 64,
         local_backend = backend0\<rparr>"

definition v3_indexed :: "real HIPAcceleratorVector" where
  "v3_indexed = \<lparr>size_v = 3, index_size = 1, vec = Some [5, - 7, 2], index_array = Some [Some 2],
         index_buffer = Some [None], host_buffer = allocate_host 64,
         device_buffer = allocate_hip 64, local_backend = backend0\<rparr>"

definition w3 :: "real HIPAcceleratorVector" where
  "w3 = \<lparr>size_v = 3, index_size = 0, vec = Some [1, 1, 4], index_array = None,
         index_buffer = None, host_buffer = allocate_host 64, device_buffer = allocate_hip 64,
         local_backend = backend0\<rparr>"

definition host3 :: "real HostVector" where
  "host3 = \<lparr>host_size = 3, host_index_size = 1, host_vec = Some [8, 9, 10],
            host_index_array = Some [Some 0]\<rparr>"

definition vi_empty :: "int HIPAcceleratorVector" where
  "vi_empty = new_HIPAcceleratorVector backend0"

definition host_empty :: "real HostVector" where
  "host_empty = \<lparr>host_size = 0, host_index_size = 0, host_vec = None, host_index_array = None\<rparr>"

definition heap0 :: "real heap" where
  "heap0 = \<lparr>objs = [0 \<mapsto> HIP v_empty, 1 \<mapsto> HIP v3_indexed, 2 \<mapsto> HOST host3, 3 \<mapsto> HIP w3,
                     4 \<mapsto> HOST host_empty],
            pending = 0\<rparr>"

text \<open>A permutation of three positions, as a device vector of \<^verbatim>\<open>int\<close>.\<close>

definition p3 :: "int HIPAcceleratorVector" where
  "p3 = \<lparr>size_v = 3, index_size = 0, vec = Some [2, 0, 1], index_array = None,
         index_buffer = None, host_buffer = allocate_host 64, device_buffer = allocate_hip 64,
         local_backend = backend0\<rparr>"

text \<open>Stencils of grid size 1 and 2, and host vectors for them.\<close>

definition st1 :: HostStencilLaplace2D where
  "st1 = \<lparr>ndim = 2, size_s = 1\<rparr>"

definition st2 :: HostStencilLaplace2D where
  "st2 = \<lparr>ndim = 2, size_s = 2\<rparr>"

definition host_of :: "real list \<Rightarrow> real HostVector" where
  "host_of xs = \<lparr>host_size = int (length xs), host_index_size = 0, host_vec = Some xs,
                 host_index_array = None\<rparr>"


definition v_left :: "real HIPAcceleratorVector" where
  "v_left = \<lparr>size_v = 0, index_size = 1, vec = None, index_array = Some [Some 2],
             index_buffer = Some [None], host_buffer = None, device_buffer = None,
             local_backend = backend0\<rparr>"

definition heap1 :: "real heap" where
  "heap1 = \<lparr>objs = [0 \<mapsto> HIP v_empty, 1 \<mapsto> HIP v3_indexed, 2 \<mapsto> HIP v_left],
            pending = 0\<rparr>"

section \<open>Multigrid setters: proofs\<close>

lemma copy_ops_prefix:
  "i + k \<le> length ops \<Longrightarrow> i + k \<le> length dst \<Longrightarrow>
   copy_ops k i ops dst = Inr (take i dst @ map Some (take k (drop i ops)) @ drop (i + k) dst)"
proof (induction k arbitrary: i dst)
  case 0
  then show ?case by simp
next
  case (Suc k)
  have i: "i < length ops" "i < length dst" using Suc.prems by simp_all
  have step: "copy_ops (Suc k) i ops dst = copy_ops k (Suc i) ops (dst[i := Some (ops ! i)])"
    using i by simp
  have ih: "copy_ops k (Suc i) ops (dst[i := Some (ops ! i)]) =
        Inr (take (Suc i) (dst[i := Some (ops ! i)]) @ map Some (take k (drop (Suc i) ops))
             @ drop (Suc i + k) (dst[i := Some (ops ! i)]))"
    using Suc.prems by (intro Suc.IH) simp_all
  have a: "take (Suc i) (dst[i := Some (ops ! i)]) = take i dst @ [Some (ops ! i)]"
    using i by (simp add: take_Suc_conv_app_nth)
  have b: "drop (Suc i + k) (dst[i := Some (ops ! i)]) = drop (i + Suc k) dst"
    by simp
  have c: "take (Suc k) (drop i ops) = ops ! i # take k (drop (Suc i) ops)"
    using i by (simp add: Cons_nth_drop_Suc [symmetric])
  show ?case unfolding step ih a b c by simp
qed

lemma copy_ops_recorded:
  assumes "0 < n" "n - 1 \<le> int (length ops)"
  shows "copy_ops (nat (n - 1)) 0 ops (replicate (nat n) None) = Inr (recorded n ops)"
proof -
  have "copy_ops (nat (n - 1)) 0 ops (replicate (nat n) None) =
        Inr (take 0 (replicate (nat n) None) @ map Some (take (nat (n - 1)) (drop 0 ops))
             @ drop (0 + nat (n - 1)) (replicate (nat n) None))"
    using assms by (intro copy_ops_prefix) simp_all
  moreover have "drop (nat (n - 1)) (replicate (nat n) (None :: 'a option)) = [None]"
    using assms by (simp add: nat_diff_distrib)
  ultimately show ?thesis by (simp add: recorded_def)
qed


text \<open>
  C3 (as the code has it).  \<open>SetRestrictOperator\<close> and \<open>SetProlongOperator\<close> fail on
  their assertions when the solver is built, when the array is null and when \<open>levels\<close>
  is not positive; on an unbuilt solver with positive \<open>levels\<close> and an array of at least
  \<open>levels - 1\<close> operators they record exactly the first \<open>levels - 1\<close> of them (the last
  slot of the bookkeeping array stays unset).  \<open>SetOperatorHierarchy\<close> fails when the
  solver is built and when the array is null, and never looks at \<open>levels\<close>: on an
  unbuilt solver it stores the array, whatever \<open>levels\<close> is.
\<close>

theorem setters_contract:
  "(build mg \<or> op = None \<or> levels mg \<le> 0 \<longrightarrow>
      SetRestrictOperator mg op = Inl AssertionFailed
      \<and> SetProlongOperator mg op = Inl AssertionFailed)
   \<and> (build mg \<or> op = None \<longrightarrow> SetOperatorHierarchy mg op = Inl AssertionFailed)
   \<and> (\<not> build mg \<longrightarrow> SetOperatorHierarchy mg (Some ops) = Inr (mg\<lparr>op_level := Some ops\<rparr>))
   \<and> (\<not> build mg \<and> 0 < levels mg \<and> levels mg - 1 \<le> int (length ops) \<longrightarrow>
        SetRestrictOperator mg (Some ops)
          = Inr (mg\<lparr>restrict_op_level := Some (recorded (levels mg) ops)\<rparr>)
        \<and> SetProlongOperator mg (Some ops)
          = Inr (mg\<lparr>prolong_op_level := Some (recorded (levels mg) ops)\<rparr>))"
proof (intro conjI impI)
  assume "build mg \<or> op = None \<or> levels mg \<le> 0"
  then show "SetRestrictOperator mg op = Inl AssertionFailed"
    by (auto simp: SetRestrictOperator_def split: option.splits)
next
  assume "build mg \<or> op = None \<or> levels mg \<le> 0"
  then show "SetProlongOperator mg op = Inl AssertionFailed"
    by (auto simp: SetProlongOperator_def split: option.splits)
next
  assume "build mg \<or> op = None"
  then show "SetOperatorHierarchy mg op = Inl AssertionFailed"
    by (auto simp: SetOperatorHierarchy_def split: option.splits)
next
  assume "\<not> build mg"
  then show "SetOperatorHierarchy mg (Some ops) = Inr (mg\<lparr>op_level := Some ops\<rparr>)"
    by (simp add: SetOperatorHierarchy_def)
next
  assume a: "\<not> build mg \<and> 0 < levels mg \<and> levels mg - 1 \<le> int (length ops)"
  then show "SetRestrictOperator mg (Some ops)
      = Inr (mg\<lparr>restrict_op_level := Some (recorded (levels mg) ops)\<rparr>)"
    by (simp add: SetRestrictOperator_def copy_ops_recorded)
next
  assume a: "\<not> build mg \<and> 0 < levels mg \<and> levels mg - 1 \<le> int (length ops)"
  then show "SetProlongOperator mg (Some ops)
      = Inr (mg\<lparr>prolong_op_level := Some (recorded (levels mg) ops)\<rparr>)"
    by (simp add: SetProlongOperator_def copy_ops_recorded)
qed

theorem setters_contract_witness:
  "SetRestrictOperator mg3 None = Inl AssertionFailed
   \<and> SetProlongOperator mg3 None = Inl AssertionFailed
   \<and> SetOperatorHierarchy mg3 None = Inl AssertionFailed
   \<and> SetOperatorHierarchy mg3 (Some [10, 20, 30]) = Inr (mg3\<lparr>op_level := Some [10, 20, 30]\<rparr>)
   \<and> SetRestrictOperator mg3 (Some [10, 20, 30])
       = Inr (mg3\<lparr>restrict_op_level := Some [Some 10, Some 20, None]\<rparr>)
   \<and> SetProlongOperator mg3 (Some [10, 20, 30])
       = Inr (mg3\<lparr>prolong_op_level := Some [Some 10, Some 20, None]\<rparr>)"
proof -
  have "\<not> build mg3" "levels mg3 = 3" by (simp_all add: mg3_def)
  then show ?thesis
    using setters_contract [of mg3 None "[10, 20, 30]"] by (simp add: recorded_def)
qed

text \<open>
  C3 as written fails: with \<open>levels = 0\<close>, \<open>SetOperatorHierarchy\<close> does not
  abort but stores the array.
\<close>

theorem SetOperatorHierarchy_levels_counterexample:
  "levels mg0 = 0
   \<and> SetOperatorHierarchy mg0 (Some [10]) = Inr (mg0\<lparr>op_level := Some [10]\<rparr>)"
  by (simp add: SetOperatorHierarchy_def mg0_def)


section \<open>Allocate, Clear and the handover: proofs\<close>

lemma hip_inv_new: "hip_inv (new_HIPAcceleratorVector b)"
  by (simp add: hip_inv_def new_HIPAcceleratorVector_def buffer_ok_def)

lemma hip_inv_rep_ok: "hip_inv v \<Longrightarrow> rep_ok v"
  by (simp add: hip_inv_def rep_ok_def)

lemma hip_inv_no_stale: "hip_inv v \<Longrightarrow> size_v v = 0 \<Longrightarrow> index_size v = 0"
  by (simp add: hip_inv_def)

text \<open>
  Every member function that changes a size field or a buffer pointer keeps \<open>rep_ok\<close>:
  the constructor, \<open>Clear\<close>, \<open>Allocate\<close>, \<open>SetDataPtr\<close> (when the caller's buffer
  has the size it is passed with), \<open>LeaveDataPtr\<close> and \<open>SetIndexArray\<close>.
\<close>

lemma rep_ok_new: "rep_ok (new_HIPAcceleratorVector b)"
  by (simp add: rep_ok_def new_HIPAcceleratorVector_def buffer_ok_def)

lemma rep_ok_Clear: "rep_ok v \<Longrightarrow> rep_ok (Clear v)"
  by (auto simp: rep_ok_def Clear_def Let_def buffer_ok_def split: option.splits)

lemma rep_ok_Allocate:
  assumes "rep_ok v" "Allocate v n = Inr w"
  shows "rep_ok w"
proof -
  let ?t1 = "if size_v v > 0 then Clear v else v"
  have t1: "rep_ok ?t1" using assms(1) rep_ok_Clear [OF assms(1)] by simp
  show ?thesis
  proof (cases "0 < n")
    case True
    then have "w = ?t1\<lparr>vec := set_to_zero_hip n (allocate_hip n :: 'a option list option),
                          host_buffer := allocate_host (HIP_warp (local_backend ?t1)),
                          device_buffer := allocate_hip (HIP_warp (local_backend ?t1)),
                          size_v := n\<rparr>"
      using assms(2) by (simp add: Allocate_def Let_def split: if_splits)
    then show ?thesis
      using t1 True by (simp add: rep_ok_def buffer_ok_def set_to_zero_hip_def allocate_hip_def)
  next
    case False
    then have "w = ?t1" using assms(2) by (simp add: Allocate_def Let_def split: if_splits)
    then show ?thesis using t1 by simp
  qed
qed

lemma rep_ok_SetDataPtr:
  assumes "rep_ok v" "SetDataPtr v ptr n = Inr w" "buffer_ok n ptr"
  shows "rep_ok w"
  using assms by (auto simp: SetDataPtr_def rep_ok_def split: if_splits)

lemma rep_ok_LeaveDataPtr:
  assumes "rep_ok v" "LeaveDataPtr v = Inr (w, buf)"
  shows "rep_ok w"
  using assms
  by (auto simp: LeaveDataPtr_def rep_ok_def buffer_ok_def split: if_splits option.splits)

lemma rep_ok_SetIndexArray:
  assumes "rep_ok v" "SetIndexArray v n index = Inr w"
  shows "rep_ok w"
proof -
  have n: "0 < n" using assms(2) by (simp add: SetIndexArray_def split: if_splits)
  let ?fresh = "allocate_hip n :: int option list option"
  let ?ia = "case hipMemcpy ?fresh (Some (map Some index)) n of Inr copied \<Rightarrow> copied | Inl _ \<Rightarrow> ?fresh"
  have "buffer_ok n ?ia"
    using n by (auto simp: hipMemcpy_def allocate_hip_def buffer_ok_def split: sum.splits)
  moreover have "w = v\<lparr>index_size := n, index_array := ?ia, index_buffer := allocate_hip n\<rparr>"
    using assms(2) by (simp add: SetIndexArray_def Let_def split: if_splits)
  ultimately show ?thesis
    using assms(1) n by (simp add: rep_ok_def buffer_ok_def allocate_hip_def)
qed


lemma v_left_rep_ok: "rep_ok v_left"
  by (simp add: rep_ok_def v_left_def buffer_ok_def)





lemma heap0_objs:
  "objs heap0 0 = Some (HIP v_empty)" "objs heap0 1 = Some (HIP v3_indexed)"
  "objs heap0 2 = Some (HOST host3)" "objs heap0 3 = Some (HIP w3)"
  "objs heap0 4 = Some (HOST host_empty)"
  by (simp_all add: heap0_def)

lemma example_invs:
  "hip_inv v_empty" "hip_inv v3_indexed" "hip_inv v3" "hip_inv w3" "host_inv host3"
  "host_inv host_empty"
  by (simp_all add: hip_inv_def host_inv_def buffer_ok_def v_empty_def v3_indexed_def v3_def
      w3_def host3_def host_empty_def new_HIPAcceleratorVector_def)

lemma example_sizes:
  "size_v v_empty = 0" "size_v v3_indexed = 3" "index_size v3_indexed = 1" "size_v w3 = 3"
  "index_size w3 = 0" "host_size host_empty = 0" "size_v v3 = 3" "index_size v3 = 0"
  by (simp_all add: v_empty_def v3_indexed_def v3_def w3_def host_empty_def
      new_HIPAcceleratorVector_def)





section \<open>Copies: proofs\<close>




lemma hipMemcpy_whole:
  "buffer_ok n dst \<Longrightarrow> buffer_ok n src \<Longrightarrow> hipMemcpy dst src n = Inr src"
  by (auto simp: hipMemcpy_def buffer_ok_def split: option.splits)

lemma hip_inv_empty:
  assumes "hip_inv t" "size_v t = 0"
  shows "index_size t = 0" "vec t = None" "index_array t = None" "index_buffer t = None"
  using assms by (auto simp: hip_inv_def buffer_ok_def split: option.splits)



lemma vector_rep_ok_sizes:
  assumes "vector_rep_ok s"
  shows "0 \<le> get_size s" "0 \<le> get_index_size s"
    "buffer_ok (get_size s) (get_vec s)" "buffer_ok (get_index_size s) (get_index_array s)"
  using assms
  by (cases s; auto simp: rep_ok_def host_rep_ok_def buffer_ok_def split: option.splits)+

lemma Allocate_empty:
  assumes "hip_inv t" "size_v t = 0" "0 \<le> n"
  shows "\<exists>d1. Allocate t n = Inr d1 \<and> index_size d1 = 0 \<and> size_v d1 = n
      \<and> buffer_ok n (vec d1) \<and> index_array d1 = None \<and> index_buffer d1 = None"
  using assms hip_inv_empty [OF assms(1,2)]
  by (cases "0 < n")
     (auto simp: Allocate_def Let_def set_to_zero_hip_def allocate_hip_def buffer_ok_def)



lemma CopyFrom_mismatch:
  assumes t: "objs h this = Some (HIP t)" and s: "objs h src = Some s"
    and ne: "size_v t \<noteq> 0"
    and mm: "size_v t \<noteq> get_size s \<or> index_size t \<noteq> get_index_size s"
  shows "CopyFrom h this src = Inl AssertionFailed"
proof (cases s)
  case (HIP sv)
  then show ?thesis using t s ne mm
    by (auto simp: CopyFrom_def obj_at_def hip_at_def seq_def)
next
  case (HOST sv)
  then show ?thesis using t s ne mm
    by (auto simp: CopyFrom_def CopyFromHost_def obj_at_def hip_at_def host_at_def seq_def)
qed












text \<open>
  The consistency of buffers and sizes is kept by a copy into an empty destination,
  as it is by the constructor, \<open>Clear\<close>, \<open>Allocate\<close>, \<open>SetDataPtr\<close>,
  \<open>LeaveDataPtr\<close> and \<open>SetIndexArray\<close>.
\<close>

lemma rep_ok_after_copy:
  assumes "vector_rep_ok s" "same_contents (HIP t') s" "fresh_index_buffer (HIP t')"
  shows "rep_ok t'"
proof -
  note sz = vector_rep_ok_sizes [OF assms(1)]
  have "buffer_ok (index_size t') (index_buffer t')"
    using assms(2,3) sz(2) by (auto simp: same_contents_def buffer_ok_def)
  then show ?thesis
    using assms(2) sz by (simp add: same_contents_def rep_ok_def)
qed

text \<open>
  A source of size 0 that still has an index set is copied into an empty destination
  without its index array: the destination gets an index array of the right size, and
  the transfers are skipped because the size is 0.
\<close>

lemma CopyFrom_stale_source_example:
  "map_sum id (\<lambda>h. map_option get_index_array (objs h 0)) (CopyFrom heap1 0 2)
     = Inr (Some (Some [None]))
   \<and> index_array v_left = Some [Some 2]"
  by (simp add: CopyFrom_def allocate_like_def Allocate_def obj_at_def hip_at_def seq_def
      heap1_def v_empty_def v_left_def new_HIPAcceleratorVector_def put_hip_def Let_def
      allocate_hip_def)











text \<open>
  C9.  When the other vector is on the device, the asynchronous entry points run the
  statements of the synchronous ones: the same allocation block, the same assertions
  and the same two \<^verbatim>\<open>hipMemcpy\<close> transfers.  The final stores are equal, also in the
  number of pending transfers; a failure of one is the same failure of the other.
\<close>

theorem async_copy_is_sync_on_device:
  assumes "objs h other = Some (HIP s)"
  shows "CopyFromAsync h this other = CopyFrom h this other
       \<and> CopyToAsync h this other = CopyTo h this other"
  using assms
  by (simp add: CopyFromAsync_def CopyFrom_def CopyToAsync_def CopyTo_def obj_at_def seq_def)

theorem async_copy_is_sync_on_device_witness:
  "CopyFromAsync heap0 0 1 = CopyFrom heap0 0 1 \<and> CopyToAsync heap0 1 0 = CopyTo heap0 1 0"
  using async_copy_is_sync_on_device [OF heap0_objs(2), of 0]
    async_copy_is_sync_on_device [OF heap0_objs(1), of 1]
  by simp

text \<open>
  With a host vector the two differ in the model: the asynchronous copy leaves its two
  transfers pending.
\<close>

lemma async_copy_from_host_pending:
  "map_sum id pending (CopyFromAsync heap0 0 2) = Inr 2
   \<and> map_sum id pending (CopyFrom heap0 0 2) = Inr 0"
  by (simp add: CopyFromAsync_def CopyFrom_def CopyFromHostAsync_def CopyFromHost_def
      allocate_like_def Allocate_def obj_at_def hip_at_def host_at_def seq_def heap0_def
      v_empty_def host3_def new_HIPAcceleratorVector_def put_hip_def enqueue_def Let_def
      set_to_zero_hip_def allocate_hip_def allocate_host_def hipMemcpy_def backend0_def)


section \<open>Arithmetic: proofs\<close>

lemma mismatch_fails:
  assumes "0 < size_v v" "get_size x \<noteq> size_v v"
  shows "AddScale v x a = Inl AssertionFailed" "ScaleAdd v a x = Inl AssertionFailed"
    "ScaleAddScale v a x b = Inl AssertionFailed" "PointWiseMult v x = Inl AssertionFailed"
    "ScaleAdd2 v a x b y c = Inl AssertionFailed" "ScaleAdd2 v a y b x c = Inl AssertionFailed"
    "PointWiseMult2 v x y = Inl AssertionFailed" "PointWiseMult2 v y x = Inl AssertionFailed"
  using assms
  by (auto simp: AddScale_def ScaleAdd_def ScaleAddScale_def PointWiseMult_def ScaleAdd2_def
      PointWiseMult2_def split: BaseVector.splits)

lemma empty_is_noop:
  assumes "\<not> 0 < size_v v"
  shows "AddScale v x a = Inr v" "ScaleAdd v a x = Inr v" "ScaleAddScale v a x b = Inr v"
    "PointWiseMult v x = Inr v" "ScaleAdd2 v a x b y c = Inr v" "PointWiseMult2 v x y = Inr v"
  using assms
  by (simp_all add: AddScale_def ScaleAdd_def ScaleAddScale_def PointWiseMult_def ScaleAdd2_def
      PointWiseMult2_def)

lemma dot_mismatch_fails:
  assumes "get_size x \<noteq> size_v v"
  shows "Dot v x = Inl AssertionFailed" "DotNonConj v x = Inl AssertionFailed"
  using assms by (simp_all add: Dot_def DotNonConj_def)

lemma dot_empty:
  assumes "size_v v = 0" "size_v w = 0"
  shows "Dot v (HIP w) = Inr 0" "DotNonConj v (HIP w) = Inr 0"
  using assms by (simp_all add: Dot_def DotNonConj_def)

text \<open>
  C4 (as the code has it).  \<open>AddScale\<close>, \<open>ScaleAdd\<close>, \<open>ScaleAddScale\<close>,
  \<open>ScaleAdd2\<close> and both forms of \<open>PointWiseMult\<close> test for an empty vector first:
  on a non-empty vector an operand of another size fails the assertion, and on an empty
  vector they return at once and leave the vector as it is, whatever the operand.
  \<open>Dot\<close> and \<open>DotNonConj\<close> assert first: an operand of another size fails the
  assertion also when this vector is empty, and on an empty vector with an empty device
  operand they return 0.  This is so for every element type but \<^verbatim>\<open>int\<close>, for which
  \<open>AddScale\<close>, \<open>Dot\<close> and \<open>DotNonConj\<close> are fatal errors on every input.
\<close>

theorem arithmetic_size_contract:
  "(0 < size_v v \<and> get_size x \<noteq> size_v v \<longrightarrow>
      AddScale v x a = Inl AssertionFailed \<and> ScaleAdd v a x = Inl AssertionFailed
      \<and> ScaleAddScale v a x b = Inl AssertionFailed
      \<and> ScaleAdd2 v a x b y c = Inl AssertionFailed \<and> ScaleAdd2 v a y b x c = Inl AssertionFailed
      \<and> PointWiseMult v x = Inl AssertionFailed
      \<and> PointWiseMult2 v x y = Inl AssertionFailed \<and> PointWiseMult2 v y x = Inl AssertionFailed)
   \<and> (\<not> 0 < size_v v \<longrightarrow>
      AddScale v x a = Inr v \<and> ScaleAdd v a x = Inr v \<and> ScaleAddScale v a x b = Inr v
      \<and> ScaleAdd2 v a x b y c = Inr v \<and> PointWiseMult v x = Inr v
      \<and> PointWiseMult2 v x y = Inr v)
   \<and> (get_size x \<noteq> size_v v \<longrightarrow>
      Dot v x = Inl AssertionFailed \<and> DotNonConj v x = Inl AssertionFailed)
   \<and> (size_v v = 0 \<and> size_v w = 0 \<longrightarrow> Dot v (HIP w) = Inr 0 \<and> DotNonConj v (HIP w) = Inr 0)
   \<and> AddScale_int vi xi ai = Inl FatalError \<and> Dot_int vi xi = Inl FatalError
   \<and> DotNonConj_int vi xi = Inl FatalError"
  using mismatch_fails [of v x] empty_is_noop [of v] dot_mismatch_fails [of x v] dot_empty [of v w]
  by (simp add: AddScale_int_def Dot_int_def DotNonConj_int_def)

theorem arithmetic_size_contract_witness:
  "AddScale v3 (HIP v_empty) 2 = Inl AssertionFailed
   \<and> ScaleAdd2 v3 2 (HIP w3) 1 (HIP v_empty) 1 = Inl AssertionFailed
   \<and> PointWiseMult2 v3 (HIP w3) (HIP v_empty) = Inl AssertionFailed
   \<and> AddScale v_empty (HIP v3) 2 = Inr v_empty
   \<and> PointWiseMult v_empty (HOST host3) = Inr v_empty
   \<and> Dot v3 (HIP v_empty) = Inl AssertionFailed
   \<and> DotNonConj v_empty (HIP v3) = Inl AssertionFailed
   \<and> Dot v_empty (HIP v_empty) = Inr 0
   \<and> AddScale_int vi_empty (HIP vi_empty) 1 = Inl FatalError"
  using arithmetic_size_contract [of v3 "HIP v_empty" 2 1 "HIP w3" 1 v_empty vi_empty "HIP vi_empty" 1]
    arithmetic_size_contract [of v_empty "HIP v3" 2 1 "HOST host3" 1 v_empty vi_empty "HIP vi_empty" 1]
    arithmetic_size_contract [of v_empty "HOST host3" 2 1 "HIP v3" 1 v_empty vi_empty "HIP vi_empty" 1]
  by (simp add: example_sizes)

text \<open>
  C4 as written fails on an empty vector and an operand of three elements: the
  sizes differ, yet \<open>AddScale\<close> does not abort, and \<open>Dot\<close> is not a no-op but aborts.
\<close>

theorem empty_vector_operand_counterexample:
  "size_v v_empty = 0 \<and> get_size (HIP v3) = 3
   \<and> AddScale v_empty (HIP v3) 2 = Inr v_empty
   \<and> Dot v_empty (HIP v3) = Inl AssertionFailed"
  by (simp add: AddScale_def Dot_def example_sizes)

text \<open>On matching sizes the operations compute what the spec says; an example.\<close>

lemma AddScale_example:
  "map_sum id vec (AddScale v3 (HIP w3) 2) = Inr (Some [7, - 5, 10])"
  by (simp add: AddScale_def hipblasTaxpy_def kernel2_def seq_def v3_def w3_def)

section \<open>Amax: proofs\<close>








section \<open>Permutations: proofs\<close>

lemma copy_to_tmp_plain:
  assumes inv: "hip_inv v" and n: "0 < size_v v" and i: "index_size v = 0"
  shows "\<exists>tmp. copy_to_tmp v = Inr tmp \<and> vec tmp = vec v"
proof -
  let ?new = "new_HIPAcceleratorVector (local_backend v) :: 'a HIPAcceleratorVector"
  have e: "size_v ?new = 0" by (simp add: new_HIPAcceleratorVector_def)
  obtain d1 where d1: "Allocate ?new (size_v v) = Inr d1" "index_size d1 = 0"
      "size_v d1 = size_v v" "buffer_ok (size_v v) (vec d1)" "index_array d1 = None"
    using Allocate_empty [OF hip_inv_new e, of "size_v v"] n by auto
  let ?h = "\<lparr>objs = [0 \<mapsto> HIP v, 1 \<mapsto> HIP d1], pending = 0\<rparr>"
  have bv: "buffer_ok (size_v v) (vec v)" using inv by (simp add: hip_inv_def)
  have m: "hipMemcpy (vec d1) (vec v) (size_v v) = Inr (vec v)"
    using d1(4) bv by (rule hipMemcpy_whole)
  have "CopyFrom ?h 1 0 = Inr (put_hip ?h 1 (d1\<lparr>vec := vec v, index_array := None\<rparr>))"
    using d1 n i m
    by (simp add: CopyFrom_def obj_at_def hip_at_def seq_def hipMemcpy_def)
  then have "copy_to_tmp v = Inr (d1\<lparr>vec := vec v, index_array := None\<rparr>)"
    using d1(1) by (simp add: copy_to_tmp_def seq_def hip_at_def put_hip_def)
  then show ?thesis by simp
qed

lemma copy_to_tmp_indexed:
  assumes n: "0 < size_v v" and i: "index_size v \<noteq> 0"
  shows "copy_to_tmp v = Inl AssertionFailed"
proof -
  let ?new = "new_HIPAcceleratorVector (local_backend v) :: 'a HIPAcceleratorVector"
  have e: "size_v ?new = 0" by (simp add: new_HIPAcceleratorVector_def)
  obtain d1 where d1: "Allocate ?new (size_v v) = Inr d1" "index_size d1 = 0"
      "size_v d1 = size_v v"
    using Allocate_empty [OF hip_inv_new e, of "size_v v"] n by auto
  let ?h = "\<lparr>objs = [0 \<mapsto> HIP v, 1 \<mapsto> HIP d1], pending = 0\<rparr>"
  have "CopyFrom ?h 1 0 = Inl AssertionFailed"
    using d1 n i by (intro CopyFrom_mismatch [of ?h 1 d1 0 "HIP v"]) simp_all
  then show ?thesis using d1(1) by (simp add: copy_to_tmp_def seq_def)
qed

text \<open>
  On a vector with an index set, \<open>Permute\<close> and \<open>PermuteBackward\<close> stop at the
  assertion \<^verbatim>\<open>hip_cast_vec->index_size_ == this->index_size_\<close> of the \<open>CopyFrom\<close> into
  \<^verbatim>\<open>vec_tmp\<close>, whose index set is empty.
\<close>

lemma Permute_indexed_fails:
  assumes "0 < size_v v" "index_size v \<noteq> 0" "size_v p = size_v v"
  shows "Permute v (HIP p) = Inl AssertionFailed"
    "PermuteBackward v (HIP p) = Inl AssertionFailed"
  using assms copy_to_tmp_indexed [OF assms(1,2)]
  by (simp_all add: Permute_def PermuteBackward_def seq_def)

lemma is_permutationD:
  assumes "is_permutation n p"
  shows "length p = n" "distinct p" "\<And>j. j < n \<Longrightarrow> 0 \<le> p ! j \<and> nat (p ! j) < n"
proof -
  show "length p = n" "distinct p" using assms by (simp_all add: is_permutation_def)
  fix j assume "j < n"
  then have "p ! j \<in> set p" using assms by (simp add: is_permutation_def)
  then show "0 \<le> p ! j \<and> nat (p ! j) < n"
    using assms by (auto simp: is_permutation_def list_all_iff)
qed

lemma is_permutation_inj:
  assumes "is_permutation n p" "i < n" "j < n" "nat (p ! i) = nat (p ! j)"
  shows "i = j"
proof -
  have "p ! i = p ! j" using is_permutationD(3) [OF assms(1)] assms(2,3,4) by (metis nat_eq_iff2)
  then show ?thesis
    using is_permutationD(1,2) [OF assms(1)] assms(2,3) by (simp add: nth_eq_iff_index_eq)
qed

lemma permute_loop_scatter:
  assumes p: "is_permutation n p" and "length inp = n" "length out = n" "i + k \<le> n"
  shows "\<exists>r. permute_loop k i p inp out = Inr r \<and> length r = n
      \<and> (\<forall>j. i \<le> j \<and> j < i + k \<longrightarrow> r ! nat (p ! j) = inp ! j)
      \<and> (\<forall>m<n. (\<forall>j. i \<le> j \<and> j < i + k \<longrightarrow> nat (p ! j) \<noteq> m) \<longrightarrow> r ! m = out ! m)"
  using assms(3,4)
proof (induction k arbitrary: i out)
  case 0
  then show ?case by auto
next
  case (Suc k)
  note D = is_permutationD [OF p]
  have i: "i < n" using Suc.prems by simp
  let ?out = "out[nat (p ! i) := inp ! i]"
  have step: "permute_loop (Suc k) i p inp out = permute_loop k (Suc i) p inp ?out"
    using i D(1) D(3) [OF i] assms(2) Suc.prems(1) by simp
  obtain r where r: "permute_loop k (Suc i) p inp ?out = Inr r" "length r = n"
      "\<forall>j. Suc i \<le> j \<and> j < Suc i + k \<longrightarrow> r ! nat (p ! j) = inp ! j"
      "\<forall>m<n. (\<forall>j. Suc i \<le> j \<and> j < Suc i + k \<longrightarrow> nat (p ! j) \<noteq> m) \<longrightarrow> r ! m = ?out ! m"
    using Suc.IH [of ?out "Suc i"] Suc.prems by auto
  have later: "\<forall>j. Suc i \<le> j \<and> j < Suc i + k \<longrightarrow> nat (p ! j) \<noteq> nat (p ! i)"
  proof (intro allI impI)
    fix j assume j: "Suc i \<le> j \<and> j < Suc i + k"
    then have "j < n" using Suc.prems by simp
    then show "nat (p ! j) \<noteq> nat (p ! i)"
      using is_permutation_inj [OF p _ i, of j] j by auto
  qed
  have at_i: "r ! nat (p ! i) = inp ! i"
    using r(4) later D(3) [OF i] Suc.prems(1) by simp
  have a: "\<forall>j. i \<le> j \<and> j < i + Suc k \<longrightarrow> r ! nat (p ! j) = inp ! j"
  proof (intro allI impI)
    fix j assume j: "i \<le> j \<and> j < i + Suc k"
    show "r ! nat (p ! j) = inp ! j"
    proof (cases "j = i")
      case True then show ?thesis using at_i by simp
    next
      case False then show ?thesis using r(3) j by simp
    qed
  qed
  have b: "\<forall>m<n. (\<forall>j. i \<le> j \<and> j < i + Suc k \<longrightarrow> nat (p ! j) \<noteq> m) \<longrightarrow> r ! m = out ! m"
  proof (intro allI impI)
    fix m assume m: "m < n" and no: "\<forall>j. i \<le> j \<and> j < i + Suc k \<longrightarrow> nat (p ! j) \<noteq> m"
    have "r ! m = ?out ! m" using r(4) m no by simp
    moreover have "nat (p ! i) \<noteq> m" using no by simp
    ultimately show "r ! m = out ! m" by simp
  qed
  show ?case unfolding step using r(1,2) a b by blast
qed

lemma permute_backward_loop_gather:
  assumes p: "is_permutation n p" and "length inp = n" "length out = n" "i + k \<le> n"
  shows "\<exists>r. permute_backward_loop k i p inp out = Inr r \<and> length r = n
      \<and> (\<forall>j. i \<le> j \<and> j < i + k \<longrightarrow> r ! j = inp ! nat (p ! j))
      \<and> (\<forall>m<n. \<not> (i \<le> m \<and> m < i + k) \<longrightarrow> r ! m = out ! m)"
  using assms(3,4)
proof (induction k arbitrary: i out)
  case 0
  then show ?case by auto
next
  case (Suc k)
  note D = is_permutationD [OF p]
  have i: "i < n" using Suc.prems by simp
  let ?out = "out[i := inp ! nat (p ! i)]"
  have step: "permute_backward_loop (Suc k) i p inp out = permute_backward_loop k (Suc i) p inp ?out"
    using i D(1) D(3) [OF i] assms(2) Suc.prems(1) by simp
  obtain r where r: "permute_backward_loop k (Suc i) p inp ?out = Inr r" "length r = n"
      "\<forall>j. Suc i \<le> j \<and> j < Suc i + k \<longrightarrow> r ! j = inp ! nat (p ! j)"
      "\<forall>m<n. \<not> (Suc i \<le> m \<and> m < Suc i + k) \<longrightarrow> r ! m = ?out ! m"
    using Suc.IH [of ?out "Suc i"] Suc.prems by auto
  have at_i: "r ! i = inp ! nat (p ! i)"
    using r(4) i Suc.prems(1) by simp
  have a: "\<forall>j. i \<le> j \<and> j < i + Suc k \<longrightarrow> r ! j = inp ! nat (p ! j)"
  proof (intro allI impI)
    fix j assume j: "i \<le> j \<and> j < i + Suc k"
    show "r ! j = inp ! nat (p ! j)"
    proof (cases "j = i")
      case True then show ?thesis using at_i by simp
    next
      case False then show ?thesis using r(3) j by simp
    qed
  qed
  have b: "\<forall>m<n. \<not> (i \<le> m \<and> m < i + Suc k) \<longrightarrow> r ! m = out ! m"
  proof (intro allI impI)
    fix m assume m: "m < n" and no: "\<not> (i \<le> m \<and> m < i + Suc k)"
    have "r ! m = ?out ! m" using r(4) m no by simp
    moreover have "i \<noteq> m" using no by auto
    ultimately show "r ! m = out ! m" by simp
  qed
  show ?case unfolding step using r(1,2) a b by blast
qed


lemma Permute_scatter:
  assumes inv: "hip_inv v" and n: "0 < size_v v" and i: "index_size v = 0"
    and xs: "vec v = Some xs"
    and p: "size_v perm = size_v v" "vec perm = Some p" "is_permutation (nat (size_v v)) p"
  shows "\<exists>r. Permute v (HIP perm) = Inr (v\<lparr>vec := Some r\<rparr>) \<and> length r = length xs
      \<and> (\<forall>j<length xs. r ! nat (p ! j) = xs ! j)"
proof -
  have len: "length xs = nat (size_v v)"
    using inv xs by (auto simp: hip_inv_def buffer_ok_def)
  obtain tmp where tmp: "copy_to_tmp v = Inr tmp" "vec tmp = Some xs"
    using copy_to_tmp_plain [OF inv n i] xs by auto
  obtain r where r: "permute_loop (nat (size_v v)) 0 p xs xs = Inr r" "length r = nat (size_v v)"
      "\<forall>j. 0 \<le> j \<and> j < 0 + nat (size_v v) \<longrightarrow> r ! nat (p ! j) = xs ! j"
    using permute_loop_scatter [OF p(3) len len, of 0 "nat (size_v v)"] by auto
  have "Permute v (HIP perm) = Inr (v\<lparr>vec := Some r\<rparr>)"
    using n p(1,2) xs tmp r(1) by (simp add: Permute_def seq_def kernel_permute_def)
  then show ?thesis using r(2,3) len by (intro exI [of _ r]) simp
qed

lemma PermuteBackward_gather:
  assumes inv: "hip_inv v" and n: "0 < size_v v" and i: "index_size v = 0"
    and xs: "vec v = Some xs"
    and p: "size_v perm = size_v v" "vec perm = Some p" "is_permutation (nat (size_v v)) p"
  shows "\<exists>r. PermuteBackward v (HIP perm) = Inr (v\<lparr>vec := Some r\<rparr>) \<and> length r = length xs
      \<and> (\<forall>j<length xs. r ! j = xs ! nat (p ! j))"
proof -
  have len: "length xs = nat (size_v v)"
    using inv xs by (auto simp: hip_inv_def buffer_ok_def)
  obtain tmp where tmp: "copy_to_tmp v = Inr tmp" "vec tmp = Some xs"
    using copy_to_tmp_plain [OF inv n i] xs by auto
  obtain r where r: "permute_backward_loop (nat (size_v v)) 0 p xs xs = Inr r"
      "length r = nat (size_v v)"
      "\<forall>j. 0 \<le> j \<and> j < 0 + nat (size_v v) \<longrightarrow> r ! j = xs ! nat (p ! j)"
    using permute_backward_loop_gather [OF p(3) len len, of 0 "nat (size_v v)"] by auto
  have "PermuteBackward v (HIP perm) = Inr (v\<lparr>vec := Some r\<rparr>)"
    using n p(1,2) xs tmp r(1) by (simp add: PermuteBackward_def seq_def kernel_permute_backward_def)
  then show ?thesis using r(2,3) len by (intro exI [of _ r]) simp
qed

text \<open>
  What holds of C7: on a vector without an index set, \<open>Permute\<close> is the
  scatter, \<open>PermuteBackward\<close> the gather, and the second undoes the first.
\<close>

lemma Permute_PermuteBackward_plain:
  assumes inv: "hip_inv v" and n: "0 < size_v v" and i: "index_size v = 0"
    and xs: "vec v = Some xs"
    and p: "size_v perm = size_v v" "vec perm = Some p" "is_permutation (nat (size_v v)) p"
  shows "\<exists>v1. Permute v (HIP perm) = Inr v1 \<and> PermuteBackward v1 (HIP perm) = Inr v"
proof -
  obtain r where r: "Permute v (HIP perm) = Inr (v\<lparr>vec := Some r\<rparr>)" "length r = length xs"
      "\<forall>j<length xs. r ! nat (p ! j) = xs ! j"
    using Permute_scatter [OF assms] by blast
  let ?v1 = "v\<lparr>vec := Some r\<rparr>"
  have len: "length xs = nat (size_v v)"
    using inv xs by (auto simp: hip_inv_def buffer_ok_def)
  have inv1: "hip_inv ?v1" using inv r(2) len n by (simp add: hip_inv_def buffer_ok_def)
  obtain r2 where r2: "PermuteBackward ?v1 (HIP perm) = Inr (?v1\<lparr>vec := Some r2\<rparr>)"
      "length r2 = length r" "\<forall>j<length r. r2 ! j = r ! nat (p ! j)"
    using PermuteBackward_gather [OF inv1, of r perm p] n i p by auto
  have "r2 = xs"
    using r(2,3) r2(2,3) by (intro nth_equalityI) simp_all
  then have "PermuteBackward ?v1 (HIP perm) = Inr v"
    using r2(1) xs by simp
  then show ?thesis using r(1) by blast
qed

lemma p3_permutation: "is_permutation 3 [2, 0, 1]"
  by (simp add: is_permutation_def)

lemma Permute_example:
  "map_sum id vec (Permute v3 (HIP p3)) = Inr (Some [- 7, 2, 5])"
  "map_sum id vec (PermuteBackward v3 (HIP p3)) = Inr (Some [2, 5, - 7])"
  by (simp_all add: Permute_def PermuteBackward_def copy_to_tmp_def CopyFrom_def Allocate_def
      kernel_permute_def kernel_permute_backward_def new_HIPAcceleratorVector_def
      obj_at_def hip_at_def seq_def put_hip_def hipMemcpy_def set_to_zero_hip_def
      allocate_hip_def allocate_host_def v3_def p3_def backend0_def Let_def numeral_3_eq_3)

text \<open>
  C7.  The vector of three elements with an index set of one position, and the
  permutation \<open>[2, 0, 1]\<close>: \<open>Permute\<close> and \<open>PermuteBackward\<close> abort.
\<close>

theorem Permute_with_index_set_aborts:
  "hip_inv v3_indexed \<and> size_v v3_indexed = 3 \<and> index_size v3_indexed = 1
   \<and> size_v p3 = 3 \<and> vec p3 = Some [2, 0, 1] \<and> is_permutation 3 [2, 0, 1]
   \<and> Permute v3_indexed (HIP p3) = Inl AssertionFailed
   \<and> PermuteBackward v3_indexed (HIP p3) = Inl AssertionFailed"
proof -
  have s: "0 < size_v v3_indexed" "index_size v3_indexed \<noteq> 0" "size_v p3 = size_v v3_indexed"
    by (simp_all add: example_sizes p3_def)
  show ?thesis
    using Permute_indexed_fails [OF s] example_invs(2) p3_permutation
    by (simp add: example_sizes p3_def)
qed


section \<open>The Laplace stencil: proofs\<close>

lemma for_loop_rule:
  assumes "I lo st"
    and "\<And>i st. lo \<le> i \<Longrightarrow> i < lo + int k \<Longrightarrow> I i st \<Longrightarrow> \<exists>st'. body i st = Inr st' \<and> I (i + 1) st'"
  shows "\<exists>st'. for_loop k lo body st = Inr st' \<and> I (lo + int k) st'"
  using assms
proof (induction k arbitrary: lo st)
  case 0
  then show ?case by simp
next
  case (Suc k)
  obtain st1 where st1: "body lo st = Inr st1" "I (lo + 1) st1"
    using Suc.prems(2) [of lo st] Suc.prems(1) by auto
  have "\<exists>st'. for_loop k (lo + 1) body st1 = Inr st' \<and> I (lo + 1 + int k) st'"
  proof (rule Suc.IH [OF st1(2)])
    fix i st assume "lo + 1 \<le> i" "i < lo + 1 + int k" "I i st"
    then show "\<exists>st'. body i st = Inr st' \<and> I (i + 1) st'"
      using Suc.prems(2) [of i st] by simp
  qed
  moreover have "lo + 1 + int k = lo + int (Suc k)" by simp
  ultimately show ?case using st1(1) by (simp del: of_nat_Suc)
qed

lemma for_range_rule:
  assumes "lo \<le> hi" "I lo st"
    and "\<And>i st. lo \<le> i \<Longrightarrow> i < hi \<Longrightarrow> I i st \<Longrightarrow> \<exists>st'. body i st = Inr st' \<and> I (i + 1) st'"
  shows "\<exists>st'. for_range lo hi body st = Inr st' \<and> I hi st'"
proof -
  have "\<exists>st'. for_loop (nat (hi - lo)) lo body st = Inr st' \<and> I (lo + int (nat (hi - lo))) st'"
    using assms by (intro for_loop_rule) simp_all
  then show ?thesis using assms(1) by (simp add: for_range_def)
qed

lemma grid_index_bounds:
  fixes s :: int
  assumes "0 \<le> a" "a < s" "0 \<le> b" "b < s"
  shows "0 \<le> a * s + b" "a * s + b < s * s"
proof -
  show "0 \<le> a * s + b" using assms by simp
  have "a * s \<le> (s - 1) * s" using assms by (intro mult_right_mono) simp_all
  then show "a * s + b < s * s" using assms by (simp add: algebra_simps)
qed

lemma grid_index_inj:
  fixes s :: int
  assumes "0 \<le> b" "b < s" "0 \<le> j" "j < s" "a * s + b = i * s + j"
  shows "a = i \<and> b = j"
proof -
  have "0 < s" using assms by simp
  then have "(a * s + b) div s = a" "(i * s + j) div s = i"
    using assms(1-4) by simp_all
  then have "a = i" using assms(5) by simp
  then show ?thesis using assms(5) by simp
qed

lemma grid_in_bounds:
  assumes "length xs = nat (s * s)" "0 \<le> a" "a < s" "0 \<le> b" "b < s" "k = a * s + b"
  shows "in_bounds xs k"
  using grid_index_bounds [OF assms(2-5)] assms(1,6) by (simp add: in_bounds_def)

lemma written_step:
  assumes w: "written W asg s inp out0 out"
    and len: "length out0 = nat (s * s)"
    and pt: "0 \<le> i" "i < s" "0 \<le> j" "j < s" "\<not> W i j" "idx = i * s + j"
    and reads: "list_all (in_bounds inp) reads"
    and rhs: "rhs () = laplace s inp i j"
    and W': "\<And>a b. 0 \<le> a \<Longrightarrow> a < s \<Longrightarrow> 0 \<le> b \<Longrightarrow> b < s \<Longrightarrow> W' a b = (W a b \<or> (a = i \<and> b = j))"
  shows "\<exists>out'. assign asg inp reads out idx rhs = Inr out' \<and> written W' asg s inp out0 out'"
proof -
  have lo: "length out = nat (s * s)" using w len by (simp add: written_def)
  have ib: "in_bounds out idx" using grid_in_bounds [OF lo pt(1-4) pt(6)] .
  let ?out' = "out[nat idx := asg (cell_at out idx) (rhs ())]"
  have a: "assign asg inp reads out idx rhs = Inr ?out'"
    using reads ib by (simp add: assign_def)
  have old: "cell_at out idx = cell_at out0 idx"
    using w pt by (simp add: written_def)
  have "written W' asg s inp out0 ?out'"
    unfolding written_def
  proof (intro conjI allI impI)
    show "length ?out' = length out0" using w by (simp add: written_def)
  next
    fix a b assume ab: "0 \<le> a \<and> a < s \<and> 0 \<le> b \<and> b < s"
    show "cell_at ?out' (a * s + b)
        = (if W' a b then asg (cell_at out0 (a * s + b)) (laplace s inp a b)
           else cell_at out0 (a * s + b))"
    proof (cases "a = i \<and> b = j")
      case True
      then have "W' a b" using W' ab by simp
      moreover have "nat idx < length out"
        using ib by (simp add: in_bounds_def nat_less_iff)
      then have "cell_at ?out' (a * s + b) = asg (cell_at out idx) (rhs ())"
        using True pt(6) by (simp add: cell_at_def)
      ultimately show ?thesis using True old rhs pt(6) by simp
    next
      case False
      then have "a * s + b \<noteq> idx"
        using grid_index_inj [of b s j a i] ab pt by auto
      moreover have "0 \<le> a * s + b" "0 \<le> idx"
        using grid_index_bounds(1) [of a s b] ab ib by (simp_all add: in_bounds_def)
      ultimately have "nat (a * s + b) \<noteq> nat idx" by simp
      then have "cell_at ?out' (a * s + b) = cell_at out (a * s + b)"
        by (simp add: cell_at_def)
      moreover have "W' a b = W a b" using W' [of a b] ab False by auto
      ultimately show ?thesis using w ab by (simp add: written_def)
    qed
  qed
  then show ?thesis using a by blast
qed


lemma laplace_code:
  "laplace s inp i j =
     4 * cell_at inp (i * s + j)
     - (if 0 < i then cell_at inp (i * s + j - s) else 0)
     - (if i < s - 1 then cell_at inp (i * s + j + s) else 0)
     - (if 0 < j then cell_at inp (i * s + j - 1) else 0)
     - (if j < s - 1 then cell_at inp (i * s + j + 1) else 0)"
proof -
  have "(i - 1) * s + j = i * s + j - s" "(i + 1) * s + j = i * s + j + s"
    by (simp_all add: algebra_simps)
  then show ?thesis unfolding laplace_def by (simp only:)
qed

lemma neighbour_bounds:
  assumes "length xs = nat (s * s)" "0 \<le> i" "i < s" "0 \<le> j" "j < s"
  shows "in_bounds xs (i * s + j)"
    "0 < i \<Longrightarrow> in_bounds xs (i * s + j - s)"
    "i < s - 1 \<Longrightarrow> in_bounds xs (i * s + j + s)"
    "0 < j \<Longrightarrow> in_bounds xs (i * s + j - 1)"
    "j < s - 1 \<Longrightarrow> in_bounds xs (i * s + j + 1)"
proof -
  show "in_bounds xs (i * s + j)"
    using assms by (intro grid_in_bounds [of xs s i j]) simp_all
  show "0 < i \<Longrightarrow> in_bounds xs (i * s + j - s)"
    using assms by (intro grid_in_bounds [of xs s "i - 1" j]) (simp_all add: algebra_simps)
  show "i < s - 1 \<Longrightarrow> in_bounds xs (i * s + j + s)"
    using assms by (intro grid_in_bounds [of xs s "i + 1" j]) (simp_all add: algebra_simps)
  show "0 < j \<Longrightarrow> in_bounds xs (i * s + j - 1)"
    using assms by (intro grid_in_bounds [of xs s i "j - 1"]) simp_all
  show "j < s - 1 \<Longrightarrow> in_bounds xs (i * s + j + 1)"
    using assms by (intro grid_in_bounds [of xs s i "j + 1"]) simp_all
qed

lemma stencil_point:
  assumes w: "written W asg s inp out0 out"
    and len: "length inp = nat (s * s)" "length out0 = nat (s * s)"
    and pt: "0 \<le> i" "i < s" "0 \<le> j" "j < s" "\<not> W i j" "idx = i * s + j"
    and reads: "set reads \<subseteq> {idx} \<union> (if 0 < i then {idx - s} else {})
        \<union> (if i < s - 1 then {idx + s} else {}) \<union> (if 0 < j then {idx - 1} else {})
        \<union> (if j < s - 1 then {idx + 1} else {})"
    and rhs: "rhs () = 4 * cell_at inp idx
        - (if 0 < i then cell_at inp (idx - s) else 0)
        - (if i < s - 1 then cell_at inp (idx + s) else 0)
        - (if 0 < j then cell_at inp (idx - 1) else 0)
        - (if j < s - 1 then cell_at inp (idx + 1) else 0)"
    and W': "\<And>a b. 0 \<le> a \<Longrightarrow> a < s \<Longrightarrow> 0 \<le> b \<Longrightarrow> b < s \<Longrightarrow> W' a b = (W a b \<or> (a = i \<and> b = j))"
  shows "\<exists>out'. assign asg inp reads out idx rhs = Inr out' \<and> written W' asg s inp out0 out'"
proof (rule written_step [OF w len(2) pt _ _ W'])
  note nb = neighbour_bounds [OF len(1) pt(1-4)]
  show "list_all (in_bounds inp) reads"
    unfolding list_all_iff
  proof
    fix k assume "k \<in> set reads"
    then have "k \<in> {idx} \<union> (if 0 < i then {idx - s} else {})
        \<union> (if i < s - 1 then {idx + s} else {}) \<union> (if 0 < j then {idx - 1} else {})
        \<union> (if j < s - 1 then {idx + 1} else {})"
      using reads by blast
    then show "in_bounds inp k"
      using nb pt(6) by (auto split: if_splits)
  qed
  show "rhs () = laplace s inp i j"
    using rhs pt(6) by (simp add: laplace_code)
qed


lemma interior_point_written:
  assumes w: "written W asg s inp out0 out"
    and len: "length inp = nat (s * s)" "length out0 = nat (s * s)"
    and pt: "1 \<le> i" "i < s - 1" "1 \<le> j" "j < s - 1" "\<not> W i j"
    and W': "\<And>a b. 0 \<le> a \<Longrightarrow> a < s \<Longrightarrow> 0 \<le> b \<Longrightarrow> b < s \<Longrightarrow> W' a b = (W a b \<or> (a = i \<and> b = j))"
  shows "\<exists>out'. interior_point asg s inp i j out = Inr out' \<and> written W' asg s inp out0 out'"
  unfolding interior_point_def Let_def
  by (rule stencil_point [where i = i and j = j, OF w len _ _ _ _ pt(5) _ _ _ W'])
     (use pt in \<open>auto simp: algebra_simps\<close>)

lemma first_row_written:
  assumes w: "written W asg s inp out0 out"
    and len: "length inp = nat (s * s)" "length out0 = nat (s * s)"
    and pt: "1 \<le> j" "j < s - 1" "\<not> W 0 j"
    and W': "\<And>a b. 0 \<le> a \<Longrightarrow> a < s \<Longrightarrow> 0 \<le> b \<Longrightarrow> b < s \<Longrightarrow> W' a b = (W a b \<or> (a = 0 \<and> b = j))"
  shows "\<exists>out'. first_row asg s inp j out = Inr out' \<and> written W' asg s inp out0 out'"
  unfolding first_row_def Let_def
  by (rule stencil_point [where i = 0 and j = j, OF w len _ _ _ _ pt(3) _ _ _ W'])
     (use pt in \<open>auto simp: algebra_simps\<close>)

lemma last_row_written:
  assumes w: "written W asg s inp out0 out"
    and len: "length inp = nat (s * s)" "length out0 = nat (s * s)"
    and pt: "1 \<le> j" "j < s - 1" "\<not> W (s - 1) j"
    and W': "\<And>a b. 0 \<le> a \<Longrightarrow> a < s \<Longrightarrow> 0 \<le> b \<Longrightarrow> b < s \<Longrightarrow> W' a b = (W a b \<or> (a = s - 1 \<and> b = j))"
  shows "\<exists>out'. last_row asg s inp j out = Inr out' \<and> written W' asg s inp out0 out'"
  unfolding last_row_def Let_def
  by (rule stencil_point [where i = "s - 1" and j = j, OF w len _ _ _ _ pt(3) _ _ _ W'])
     (use pt in \<open>auto simp: algebra_simps\<close>)

lemma first_column_written:
  assumes w: "written W asg s inp out0 out"
    and len: "length inp = nat (s * s)" "length out0 = nat (s * s)"
    and pt: "1 \<le> i" "i < s - 1" "\<not> W i 0"
    and W': "\<And>a b. 0 \<le> a \<Longrightarrow> a < s \<Longrightarrow> 0 \<le> b \<Longrightarrow> b < s \<Longrightarrow> W' a b = (W a b \<or> (a = i \<and> b = 0))"
  shows "\<exists>out'. first_column asg s inp i out = Inr out' \<and> written W' asg s inp out0 out'"
  unfolding first_column_def Let_def
  by (rule stencil_point [where i = i and j = 0, OF w len _ _ _ _ pt(3) _ _ _ W'])
     (use pt in \<open>auto simp: algebra_simps\<close>)

lemma last_column_written:
  assumes w: "written W asg s inp out0 out"
    and len: "length inp = nat (s * s)" "length out0 = nat (s * s)"
    and pt: "1 \<le> i" "i < s - 1" "\<not> W i (s - 1)"
    and W': "\<And>a b. 0 \<le> a \<Longrightarrow> a < s \<Longrightarrow> 0 \<le> b \<Longrightarrow> b < s \<Longrightarrow> W' a b = (W a b \<or> (a = i \<and> b = s - 1))"
  shows "\<exists>out'. last_column asg s inp i out = Inr out' \<and> written W' asg s inp out0 out'"
  unfolding last_column_def Let_def
  by (rule stencil_point [where i = i and j = "s - 1", OF w len _ _ _ _ pt(3) _ _ _ W'])
     (use pt in \<open>auto simp: algebra_simps\<close>)

lemma corner_00_written:
  assumes w: "written W asg s inp out0 out"
    and len: "length inp = nat (s * s)" "length out0 = nat (s * s)"
    and pt: "2 \<le> s" "\<not> W 0 0"
    and W': "\<And>a b. 0 \<le> a \<Longrightarrow> a < s \<Longrightarrow> 0 \<le> b \<Longrightarrow> b < s \<Longrightarrow> W' a b = (W a b \<or> (a = 0 \<and> b = 0))"
  shows "\<exists>out'. corner_00 asg s inp out = Inr out' \<and> written W' asg s inp out0 out'"
  unfolding corner_00_def Let_def
  by (rule stencil_point [where i = 0 and j = 0, OF w len _ _ _ _ pt(2) _ _ _ W'])
     (use pt in \<open>auto simp: algebra_simps\<close>)

lemma corner_0n_written:
  assumes w: "written W asg s inp out0 out"
    and len: "length inp = nat (s * s)" "length out0 = nat (s * s)"
    and pt: "2 \<le> s" "\<not> W 0 (s - 1)"
    and W': "\<And>a b. 0 \<le> a \<Longrightarrow> a < s \<Longrightarrow> 0 \<le> b \<Longrightarrow> b < s \<Longrightarrow> W' a b = (W a b \<or> (a = 0 \<and> b = s - 1))"
  shows "\<exists>out'. corner_0n asg s inp out = Inr out' \<and> written W' asg s inp out0 out'"
  unfolding corner_0n_def Let_def
  by (rule stencil_point [where i = 0 and j = "s - 1", OF w len _ _ _ _ pt(2) _ _ _ W'])
     (use pt in \<open>auto simp: algebra_simps\<close>)

lemma corner_n0_written:
  assumes w: "written W asg s inp out0 out"
    and len: "length inp = nat (s * s)" "length out0 = nat (s * s)"
    and pt: "2 \<le> s" "\<not> W (s - 1) 0"
    and W': "\<And>a b. 0 \<le> a \<Longrightarrow> a < s \<Longrightarrow> 0 \<le> b \<Longrightarrow> b < s \<Longrightarrow> W' a b = (W a b \<or> (a = s - 1 \<and> b = 0))"
  shows "\<exists>out'. corner_n0 asg s inp out = Inr out' \<and> written W' asg s inp out0 out'"
  unfolding corner_n0_def Let_def
  by (rule stencil_point [where i = "s - 1" and j = 0, OF w len _ _ _ _ pt(2) _ _ _ W'])
     (use pt in \<open>auto simp: algebra_simps\<close>)

lemma corner_nn_written:
  assumes w: "written W asg s inp out0 out"
    and len: "length inp = nat (s * s)" "length out0 = nat (s * s)"
    and pt: "2 \<le> s" "\<not> W (s - 1) (s - 1)"
    and W': "\<And>a b. 0 \<le> a \<Longrightarrow> a < s \<Longrightarrow> 0 \<le> b \<Longrightarrow> b < s \<Longrightarrow> W' a b = (W a b \<or> (a = s - 1 \<and> b = s - 1))"
  shows "\<exists>out'. corner_nn asg s inp out = Inr out' \<and> written W' asg s inp out0 out'"
  unfolding corner_nn_def Let_def
  by (rule stencil_point [where i = "s - 1" and j = "s - 1", OF w len _ _ _ _ pt(2) _ _ _ W'])
     (use pt in \<open>auto simp: algebra_simps\<close>)


lemma written_init:
  assumes "\<And>a b. \<not> W a b"
  shows "written W asg s inp out0 out0"
  using assms by (simp add: written_def)

lemma written_cong:
  assumes "written W asg s inp out0 out"
    and "\<And>a b. 0 \<le> a \<Longrightarrow> a < s \<Longrightarrow> 0 \<le> b \<Longrightarrow> b < s \<Longrightarrow> W' a b = W a b"
  shows "written W' asg s inp out0 out"
  using assms by (simp add: written_def)

text \<open>The interior: the inner loop fills row \<open>i\<close>, the outer loop the rows 1 to \<open>s - 2\<close>.\<close>

lemma interior_row:
  assumes len: "length inp = nat (s * s)" "length out0 = nat (s * s)"
    and s: "2 \<le> s" and i: "1 \<le> i" "i < s - 1"
    and w: "written (\<lambda>a b. 1 \<le> a \<and> a < i \<and> 1 \<le> b \<and> b < s - 1) asg s inp out0 out"
  shows "\<exists>out'. for_range 1 (s - 1) (\<lambda>j. interior_point asg s inp i j) out = Inr out'
      \<and> written (\<lambda>a b. 1 \<le> a \<and> a < i + 1 \<and> 1 \<le> b \<and> b < s - 1) asg s inp out0 out'"
proof -
  let ?J = "\<lambda>j out. written (\<lambda>a b. (1 \<le> a \<and> a < i \<and> 1 \<le> b \<and> b < s - 1)
                                   \<or> (a = i \<and> 1 \<le> b \<and> b < j)) asg s inp out0 out"
  have "\<exists>out'. for_range 1 (s - 1) (\<lambda>j. interior_point asg s inp i j) out = Inr out'
      \<and> ?J (s - 1) out'"
  proof (rule for_range_rule [where I = ?J])
    show "1 \<le> s - 1" using s by simp
    show "?J 1 out" using w by (rule written_cong) auto
  next
    fix j out1 assume j: "1 \<le> j" "j < s - 1" and J: "?J j out1"
    show "\<exists>st'. interior_point asg s inp i j out1 = Inr st' \<and> ?J (j + 1) st'"
      by (rule interior_point_written [OF J len i j]) (use i j in auto)
  qed
  then obtain out' where o: "for_range 1 (s - 1) (\<lambda>j. interior_point asg s inp i j) out = Inr out'"
      "?J (s - 1) out'" by blast
  have "written (\<lambda>a b. 1 \<le> a \<and> a < i + 1 \<and> 1 \<le> b \<and> b < s - 1) asg s inp out0 out'"
    using o(2) by (rule written_cong) (use i in auto)
  then show ?thesis using o(1) by blast
qed

lemma interior_loops:
  assumes len: "length inp = nat (s * s)" "length out0 = nat (s * s)" and s: "2 \<le> s"
  shows "\<exists>out'. for_range 1 (s - 1) (\<lambda>i. for_range 1 (s - 1) (\<lambda>j. interior_point asg s inp i j)) out0
        = Inr out'
      \<and> written (\<lambda>a b. 1 \<le> a \<and> a < s - 1 \<and> 1 \<le> b \<and> b < s - 1) asg s inp out0 out'"
proof (rule for_range_rule
    [where I = "\<lambda>i out. written (\<lambda>a b. 1 \<le> a \<and> a < i \<and> 1 \<le> b \<and> b < s - 1) asg s inp out0 out"])
  show "1 \<le> s - 1" using s by simp
  show "written (\<lambda>a b. 1 \<le> a \<and> a < 1 \<and> 1 \<le> b \<and> b < s - 1) asg s inp out0 out0"
    by (rule written_init) simp
next
  fix i out assume "1 \<le> i" "i < s - 1"
    and "written (\<lambda>a b. 1 \<le> a \<and> a < i \<and> 1 \<le> b \<and> b < s - 1) asg s inp out0 out"
  then show "\<exists>st'. for_range 1 (s - 1) (\<lambda>j. interior_point asg s inp i j) out = Inr st'
      \<and> written (\<lambda>a b. 1 \<le> a \<and> a < i + 1 \<and> 1 \<le> b \<and> b < s - 1) asg s inp out0 st'"
    by (rule interior_row [OF len s])
qed

text \<open>The first and the last row, without their corners.\<close>

lemma row_loop:
  assumes len: "length inp = nat (s * s)" "length out0 = nat (s * s)" and s: "2 \<le> s"
    and w: "written (\<lambda>a b. 1 \<le> a \<and> a < s - 1 \<and> 1 \<le> b \<and> b < s - 1) asg s inp out0 out"
  shows "\<exists>out'. for_range 1 (s - 1)
          (\<lambda>j out. seq (first_row asg s inp j out) (last_row asg s inp j)) out = Inr out'
      \<and> written (\<lambda>a b. 1 \<le> b \<and> b < s - 1) asg s inp out0 out'"
proof -
  let ?J = "\<lambda>j out. written (\<lambda>a b. (1 \<le> a \<and> a < s - 1 \<and> 1 \<le> b \<and> b < s - 1)
                                   \<or> ((a = 0 \<or> a = s - 1) \<and> 1 \<le> b \<and> b < j)) asg s inp out0 out"
  have "\<exists>out'. for_range 1 (s - 1)
          (\<lambda>j out. seq (first_row asg s inp j out) (last_row asg s inp j)) out = Inr out'
      \<and> ?J (s - 1) out'"
  proof (rule for_range_rule [where I = ?J])
    show "1 \<le> s - 1" using s by simp
    show "?J 1 out" using w by (rule written_cong) auto
  next
    fix j out1 assume j: "1 \<le> j" "j < s - 1" and J: "?J j out1"
    let ?M = "\<lambda>a b. ((1 \<le> a \<and> a < s - 1 \<and> 1 \<le> b \<and> b < s - 1)
                      \<or> ((a = 0 \<or> a = s - 1) \<and> 1 \<le> b \<and> b < j)) \<or> (a = 0 \<and> b = j)"
    obtain out2 where o2: "first_row asg s inp j out1 = Inr out2" "written ?M asg s inp out0 out2"
      using first_row_written [OF J len j, of ?M] by auto
    obtain out3 where o3: "last_row asg s inp j out2 = Inr out3" "?J (j + 1) out3"
    proof -
      have "\<exists>out'. last_row asg s inp j out2 = Inr out' \<and> ?J (j + 1) out'"
        by (rule last_row_written [OF o2(2) len j]) (use s j in auto)
      then show ?thesis using that by blast
    qed
    show "\<exists>st'. seq (first_row asg s inp j out1) (last_row asg s inp j) = Inr st' \<and> ?J (j + 1) st'"
      using o2(1) o3 by (simp add: seq_def)
  qed
  then obtain out' where o: "for_range 1 (s - 1)
          (\<lambda>j out. seq (first_row asg s inp j out) (last_row asg s inp j)) out = Inr out'"
      "?J (s - 1) out'" by blast
  have "written (\<lambda>a b. 1 \<le> b \<and> b < s - 1) asg s inp out0 out'"
    using o(2) by (rule written_cong) auto
  then show ?thesis using o(1) by blast
qed

text \<open>The first and the last column, without their corners.\<close>

lemma column_loop:
  assumes len: "length inp = nat (s * s)" "length out0 = nat (s * s)" and s: "2 \<le> s"
    and w: "written (\<lambda>a b. 1 \<le> b \<and> b < s - 1) asg s inp out0 out"
  shows "\<exists>out'. for_range 1 (s - 1)
          (\<lambda>i out. seq (first_column asg s inp i out) (last_column asg s inp i)) out = Inr out'
      \<and> written (\<lambda>a b. (1 \<le> b \<and> b < s - 1) \<or> (1 \<le> a \<and> a < s - 1)) asg s inp out0 out'"
proof -
  let ?J = "\<lambda>i out. written (\<lambda>a b. (1 \<le> b \<and> b < s - 1)
                                   \<or> ((b = 0 \<or> b = s - 1) \<and> 1 \<le> a \<and> a < i)) asg s inp out0 out"
  have "\<exists>out'. for_range 1 (s - 1)
          (\<lambda>i out. seq (first_column asg s inp i out) (last_column asg s inp i)) out = Inr out'
      \<and> ?J (s - 1) out'"
  proof (rule for_range_rule [where I = ?J])
    show "1 \<le> s - 1" using s by simp
    show "?J 1 out" using w by (rule written_cong) auto
  next
    fix i out1 assume i: "1 \<le> i" "i < s - 1" and J: "?J i out1"
    let ?M = "\<lambda>a b. ((1 \<le> b \<and> b < s - 1)
                      \<or> ((b = 0 \<or> b = s - 1) \<and> 1 \<le> a \<and> a < i)) \<or> (a = i \<and> b = 0)"
    obtain out2 where o2: "first_column asg s inp i out1 = Inr out2" "written ?M asg s inp out0 out2"
      using first_column_written [OF J len i, of ?M] by auto
    obtain out3 where o3: "last_column asg s inp i out2 = Inr out3" "?J (i + 1) out3"
    proof -
      have "\<exists>out'. last_column asg s inp i out2 = Inr out' \<and> ?J (i + 1) out'"
        by (rule last_column_written [OF o2(2) len i]) (use s i in auto)
      then show ?thesis using that by blast
    qed
    show "\<exists>st'. seq (first_column asg s inp i out1) (last_column asg s inp i) = Inr st'
        \<and> ?J (i + 1) st'"
      using o2(1) o3 by (simp add: seq_def)
  qed
  then obtain out' where o: "for_range 1 (s - 1)
          (\<lambda>i out. seq (first_column asg s inp i out) (last_column asg s inp i)) out = Inr out'"
      "?J (s - 1) out'" by blast
  have "written (\<lambda>a b. (1 \<le> b \<and> b < s - 1) \<or> (1 \<le> a \<and> a < s - 1)) asg s inp out0 out'"
    using o(2) by (rule written_cong) auto
  then show ?thesis using o(1) by blast
qed


text \<open>
  A whole sweep on a grid of size at least 2: every access is inside the buffers and
  every point is assigned once, with its row of the Laplacian.
\<close>

lemma sweep_laplace:
  assumes len: "length inp = nat (s * s)" "length out0 = nat (s * s)" and s: "2 \<le> s"
  shows "\<exists>r. sweep asg s inp out0 = Inr r \<and> written (\<lambda>a b. True) asg s inp out0 r"
proof -
  let ?W3 = "\<lambda>a b. (1 \<le> b \<and> b < s - 1) \<or> (1 \<le> a \<and> a < s - 1)"
  let ?W4 = "\<lambda>a b. ?W3 a b \<or> (a = 0 \<and> b = 0)"
  let ?W5 = "\<lambda>a b. ?W4 a b \<or> (a = 0 \<and> b = s - 1)"
  let ?W6 = "\<lambda>a b. ?W5 a b \<or> (a = s - 1 \<and> b = 0)"
  obtain o1 where o1:
      "for_range 1 (s - 1) (\<lambda>i. for_range 1 (s - 1) (\<lambda>j. interior_point asg s inp i j)) out0 = Inr o1"
      "written (\<lambda>a b. 1 \<le> a \<and> a < s - 1 \<and> 1 \<le> b \<and> b < s - 1) asg s inp out0 o1"
    using interior_loops [OF len s] by blast
  obtain o2 where o2:
      "for_range 1 (s - 1) (\<lambda>j out. seq (first_row asg s inp j out) (last_row asg s inp j)) o1 = Inr o2"
      "written (\<lambda>a b. 1 \<le> b \<and> b < s - 1) asg s inp out0 o2"
    using row_loop [OF len s o1(2)] by blast
  obtain o3 where o3:
      "for_range 1 (s - 1) (\<lambda>i out. seq (first_column asg s inp i out) (last_column asg s inp i)) o2
        = Inr o3"
      "written ?W3 asg s inp out0 o3"
    using column_loop [OF len s o2(2)] by blast
  obtain o4 where o4: "corner_00 asg s inp o3 = Inr o4" "written ?W4 asg s inp out0 o4"
    using corner_00_written [OF o3(2) len s, of ?W4] by auto
  obtain o5 where o5: "corner_0n asg s inp o4 = Inr o5" "written ?W5 asg s inp out0 o5"
    using corner_0n_written [OF o4(2) len s, of ?W5] s by auto
  obtain o6 where o6: "corner_n0 asg s inp o5 = Inr o6" "written ?W6 asg s inp out0 o6"
    using corner_n0_written [OF o5(2) len s, of ?W6] s by auto
  have "\<exists>r. corner_nn asg s inp o6 = Inr r \<and> written (\<lambda>a b. True) asg s inp out0 r"
    by (rule corner_nn_written [OF o6(2) len s]) (use s in auto)
  then obtain r where r: "corner_nn asg s inp o6 = Inr r" "written (\<lambda>a b. True) asg s inp out0 r"
    by blast
  have "sweep asg s inp out0 = Inr r"
    using o1(1) o2(1) o3(1) o4(1) o5(1) o6(1) r(1) by (simp add: sweep_def seq_def)
  then show ?thesis using r(2) by blast
qed

lemma stencil_run_laplace:
  assumes st: "ndim st = 2" "2 \<le> size_s st" "size_s st * size_s st \<le> INT_MAX"
    and vin: "host_size vin = size_s st * size_s st" "host_inv vin"
    and vout: "host_size vout = size_s st * size_s st" "host_inv vout"
  shows "\<exists>xs os r. host_vec vin = Some xs \<and> host_vec vout = Some os
      \<and> stencil_run asg st (HOST vin) (HOST vout) = Inr (HOST (vout\<lparr>host_vec := Some r\<rparr>))
      \<and> length r = length os
      \<and> (\<forall>i j. 0 \<le> i \<and> i < size_s st \<and> 0 \<le> j \<and> j < size_s st \<longrightarrow>
            cell_at r (i * size_s st + j)
              = asg (cell_at os (i * size_s st + j)) (laplace (size_s st) xs i j))"
proof -
  let ?s = "size_s st"
  have pos: "0 < ?s * ?s" using st(2) by simp
  obtain xs where xs: "host_vec vin = Some xs" "length xs = nat (?s * ?s)"
    using vin pos by (auto simp: host_inv_def buffer_ok_def split: option.splits)
  obtain os where os: "host_vec vout = Some os" "length os = nat (?s * ?s)"
    using vout pos by (auto simp: host_inv_def buffer_ok_def split: option.splits)
  obtain r where r: "sweep asg ?s xs os = Inr r" "written (\<lambda>a b. True) asg ?s xs os r"
    using sweep_laplace [OF xs(2) os(2) st(2)] by blast
  have nrow: "get_nrow st = Inr (?s * ?s)"
    using st(1,3) by (simp add: get_nrow_def power2_eq_square)
  have "stencil_run asg st (HOST vin) (HOST vout) = Inr (HOST (vout\<lparr>host_vec := Some r\<rparr>))"
    using st(1,2) vin(1) vout(1) pos nrow xs(1) os(1) r(1)
    by (simp add: stencil_run_def seq_def)
  then show ?thesis
    using xs(1) os(1) r(2) by (intro exI [of _ xs] exI [of _ os] exI [of _ r]) (simp add: written_def)
qed

text \<open>
  What holds of C2 and C1: on a grid of size at least 2 whose number of points fits
  into an \<^verbatim>\<open>int\<close> (a size of at most 46340), \<open>Apply\<close> assigns every entry of \<open>out\<close>
  its row of the truncated 5-point Laplacian, and \<open>ApplyAdd\<close> adds that row to every
  entry of \<open>out\<close>, whatever the scalar.  On a larger grid the number of rows
  overflows.
\<close>

lemma Apply_laplace:
  assumes "ndim st = 2" "2 \<le> size_s st" "size_s st * size_s st \<le> INT_MAX"
    and "host_size vin = size_s st * size_s st" "host_inv vin"
    and "host_size vout = size_s st * size_s st" "host_inv vout"
  shows "\<exists>xs os r. host_vec vin = Some xs \<and> host_vec vout = Some os
      \<and> Apply st (HOST vin) (HOST vout) = Inr (HOST (vout\<lparr>host_vec := Some r\<rparr>))
      \<and> length r = length os
      \<and> (\<forall>i j. 0 \<le> i \<and> i < size_s st \<and> 0 \<le> j \<and> j < size_s st \<longrightarrow>
            cell_at r (i * size_s st + j) = laplace (size_s st) xs i j)"
  using stencil_run_laplace [OF assms, of "\<lambda>old new. new"] by (simp add: Apply_def)

lemma ApplyAdd_laplace:
  assumes "ndim st = 2" "2 \<le> size_s st" "size_s st * size_s st \<le> INT_MAX"
    and "host_size vin = size_s st * size_s st" "host_inv vin"
    and "host_size vout = size_s st * size_s st" "host_inv vout"
  shows "\<exists>xs os r. host_vec vin = Some xs \<and> host_vec vout = Some os
      \<and> ApplyAdd st (HOST vin) scalar (HOST vout) = Inr (HOST (vout\<lparr>host_vec := Some r\<rparr>))
      \<and> length r = length os
      \<and> (\<forall>i j. 0 \<le> i \<and> i < size_s st \<and> 0 \<le> j \<and> j < size_s st \<longrightarrow>
            cell_at r (i * size_s st + j)
              = cell_at os (i * size_s st + j) + laplace (size_s st) xs i j)"
  using stencil_run_laplace [OF assms, of "\<lambda>old new. old + new"] by (simp add: ApplyAdd_def)


lemma ApplyAdd_scalar_irrelevant: "ApplyAdd st inp a out = ApplyAdd st inp b out"
  by (simp add: ApplyAdd_def)

text \<open>
  C1.  On the 2 by 2 grid, with \<open>in = (1, 0, 0, 0)\<close>, \<open>out = 0\<close> and the scalar 2:
  \<open>A \<cdot> in\<close> is \<open>(4, -1, -1, 0)\<close>, as \<open>Apply\<close> computes it, and \<open>ApplyAdd\<close> adds
  exactly that to \<open>out\<close>, not twice that.
\<close>

theorem ApplyAdd_ignores_scalar:
  "Apply st2 (HOST (host_of [1, 0, 0, 0])) (HOST (host_of [0, 0, 0, 0]))
     = Inr (HOST (host_of [4, - 1, - 1, 0]))
   \<and> ApplyAdd st2 (HOST (host_of [1, 0, 0, 0])) 2 (HOST (host_of [0, 0, 0, 0]))
     = Inr (HOST (host_of [4, - 1, - 1, 0]))"
  by (simp add: Apply_def ApplyAdd_def stencil_run_def st2_def host_of_def get_nrow_def
      INT_MAX_def sweep_def seq_def for_range_def corner_00_def corner_0n_def corner_n0_def
      corner_nn_def assign_def in_bounds_def Let_def cell_at_def numeral_2_eq_2 numeral_3_eq_3)

text \<open>
  C2.  On the grid of size 1 the vectors have one element, and the first corner
  assignment reads \<^verbatim>\<open>vec_[idx+1]\<close> with \<open>idx = 0\<close>, outside the input.
\<close>

theorem Apply_grid_of_one_reads_outside:
  "size_s st1 = 1 \<and> get_size (HOST (host_of [3])) = 1
   \<and> Apply st1 (HOST (host_of [3])) (HOST (host_of [0])) = Inl OutOfBounds"
  by (simp add: Apply_def stencil_run_def st1_def host_of_def get_nrow_def INT_MAX_def sweep_def
      seq_def for_range_def corner_00_def assign_def in_bounds_def Let_def)


text \<open>
  On a grid whose number of points does not fit into an \<^verbatim>\<open>int\<close>, neither function
  gets past the computation of the number of rows.
\<close>

lemma stencil_run_overflow:
  assumes "ndim st = 2" "0 < size_s st" "INT_MAX < size_s st * size_s st"
    and "0 \<le> get_size inp" "0 \<le> get_size out"
  shows "Apply st inp out = Inl IntOverflow" "ApplyAdd st inp scalar out = Inl IntOverflow"
  using assms
  by (simp_all add: Apply_def ApplyAdd_def stencil_run_def get_nrow_def seq_def power2_eq_square)
end
